theory Spec2Isabelle
  imports Main "HOL-Library.Word" "HOL-Library.Sublist" "HOL-Library.AList"
begin

section \<open>The chunker (\<open>chunkText\<close>, internal/services/ingest.go)\<close>

text \<open>
  Go strings are byte sequences; they are modelled as \<open>string\<close> (a list of 8-bit
  characters). The line separator is the byte 0x0A.
\<close>

definition newline :: char where
  "newline = CHR 0x0A"

text \<open>
  \<open>strings.Split(text, "\n")\<close>: the pieces between separators. A text with \<open>n\<close>
  separators has \<open>n + 1\<close> pieces; in particular the empty text has the single piece \<open>""\<close>.
\<close>

fun Split :: "string \<Rightarrow> string list" where
  "Split [] = [[]]"
| "Split (c # cs) =
     (if c = newline then [] # Split cs
      else (case Split cs of [] \<Rightarrow> [[c]] | l # ls \<Rightarrow> (c # l) # ls))"

text \<open>
  \<open>strings.Fields\<close> splits around runs of white space as \<open>unicode.IsSpace\<close> defines it.
  \<open>spaceWidth s\<close> is the number of bytes of the white-space rune that starts \<open>s\<close>
  (0 when \<open>s\<close> does not start with one): the six ASCII spaces, and the UTF-8 encodings of
  U+0085, U+00A0, U+1680, U+2000..U+200A, U+2028, U+2029, U+202F, U+205F and U+3000.
  A lead byte of these encodings is never a continuation byte, so a white-space encoding is
  decoded as such wherever it occurs in the byte sequence.
\<close>

definition asciiSpace :: "char \<Rightarrow> bool" where
  "asciiSpace c \<longleftrightarrow> c \<in> {CHR 0x09, CHR 0x0A, CHR 0x0B, CHR 0x0C, CHR 0x0D, CHR 0x20}"

fun spaceWidth :: "string \<Rightarrow> nat" where
  "spaceWidth [] = 0"
| "spaceWidth (c # cs) =
     (if asciiSpace c then 1
      else if c = CHR 0xC2 \<and> (prefix [CHR 0x85] cs \<or> prefix [CHR 0xA0] cs) then 2
      else if c = CHR 0xE1 \<and> prefix [CHR 0x9A, CHR 0x80] cs then 3
      else if c = CHR 0xE2 \<and>
              (case cs of
                 c1 # c2 # _ \<Rightarrow>
                   (c1 = CHR 0x80 \<and>
                      ((of_char c2 :: nat) \<in> {0x80..0x8A} \<or> c2 \<in> {CHR 0xA8, CHR 0xA9, CHR 0xAF}))
                   \<or> (c1 = CHR 0x81 \<and> c2 = CHR 0x9F)
               | _ \<Rightarrow> False) then 3
      else if c = CHR 0xE3 \<and> prefix [CHR 0x80, CHR 0x80] cs then 3
      else 0)"

text \<open>
  \<open>len(strings.Fields(line))\<close>: the number of maximal runs of non-space runes.
  \<open>countFields skip inField s\<close> scans \<open>s\<close> with \<open>skip\<close> bytes of a white-space rune still
  to pass over, \<open>inField\<close> telling whether the previous rune belonged to a field.
\<close>

fun countFields :: "nat \<Rightarrow> bool \<Rightarrow> string \<Rightarrow> nat" where
  "countFields skip inField [] = 0"
| "countFields (Suc n) inField (c # cs) = countFields n inField cs"
| "countFields 0 inField (c # cs) =
     (let w = spaceWidth (c # cs) in
      if w > 0 then countFields (w - 1) False cs
      else (if inField then 0 else 1) + countFields 0 True cs)"

definition lenFields :: "string \<Rightarrow> nat" where
  "lenFields line = countFields 0 False line"

text \<open>
  The loop of \<open>chunkText\<close> over the lines, with its three variables \<open>chunks\<close>,
  \<open>currentChunk\<close> and \<open>tokenCount\<close>; the first equation is the flush after the loop.
  \<open>maxTokens\<close> is a Go \<open>int\<close>; the counts are bounded by the length of the text, so
  no addition wraps.
\<close>

fun chunkLoop :: "int \<Rightarrow> string list \<Rightarrow> string list \<Rightarrow> string \<Rightarrow> nat \<Rightarrow> string list" where
  "chunkLoop maxTokens [] chunks currentChunk tokenCount =
     (if length currentChunk > 0 then chunks @ [currentChunk] else chunks)"
| "chunkLoop maxTokens (line # lines) chunks currentChunk tokenCount =
     (let lineTokens = lenFields line in
      if int (tokenCount + lineTokens) > maxTokens \<and> length currentChunk > 0
      then chunkLoop maxTokens lines (chunks @ [currentChunk]) (line @ [newline]) lineTokens
      else chunkLoop maxTokens lines chunks (currentChunk @ line @ [newline])
             (tokenCount + lineTokens))"

definition chunkText :: "string \<Rightarrow> int \<Rightarrow> string list" where
  "chunkText text maxTokens = chunkLoop maxTokens (Split text) [] [] 0"

section \<open>Dynamic values, metadata and errors\<close>

text \<open>
  Floating-point numbers are carried as their IEEE-754 bit patterns; the core never
  computes with them.
\<close>

type_synonym float64 = "64 word"
type_synonym float32 = "32 word"

text \<open>
  The dynamic values (\<open>interface{}\<close>) that the core inspects with type switches or puts
  into its maps. \<open>VOther\<close> stands for every dynamic type not listed (slices, nested maps).
\<close>

datatype gvalue =
    VString string
  | VInt int
  | VInt64 int
  | VFloat64 float64
  | VBool bool
  | VNil
  | VDocument string
  | VDistance float32
  | VOther

text \<open>
  A Go \<open>map[string]interface{}\<close> is an association list with distinct keys, in the order
  in which \<open>range\<close> visits it (Go leaves that order unspecified); a nil map is the
  empty list. Assignment \<open>m[k] = v\<close> is \<open>AList.update k v m\<close>.
\<close>

type_synonym gomap = "(string \<times> gvalue) list"

text \<open>The typed attributes of the store's metadata and a stored metadata record.\<close>

datatype attr = AString string | AInt int | AFloat float64

type_synonym DocumentMetadata = "string \<rightharpoonup> attr"

definition NewDocumentMetadata :: "(string \<times> attr) list \<Rightarrow> DocumentMetadata" where
  "NewDocumentMetadata attributes = fold (\<lambda>(k, a) m. m(k \<mapsto> a)) attributes Map.empty"

text \<open>An error value of the store client, opaque to the core.\<close>

datatype store_error = StoreError string

text \<open>
  The errors of the core: a store error returned as it is (\<open>return nil, err\<close>), a store
  error wrapped with context (\<open>fmt.Errorf("...: %w", err)\<close>), an error made from a message
  alone, and a run-time panic (an index out of range).
\<close>

datatype error =
    StoreErr store_error
  | Wrapped string store_error
  | Errorf string
  | Panic string

section \<open>The vector store (external collaborator)\<close>

text \<open>
  The store is a third-party client (\<open>chroma-go\<close>); the core reaches it only through the
  calls below. The model keeps what the core relies on: the rows of each collection, a script
  of outcomes for the calls to come (\<open>Some e\<close>: the next call fails with \<open>e\<close>; the
  empty script: every call succeeds), and the answer of the similarity engine, which is
  opaque. Getting or creating a collection does not fail because the collection exists;
  getting a collection fails when it does not; \<open>Get\<close> selects rows by an equality on a
  metadata key or by id; \<open>Add\<close> appends rows and ignores an id that the collection
  already holds; \<open>Query\<close> returns what the engine answers to the query built from the
  options.
\<close>

record row =
  row_id :: string
  row_document :: string
  row_metadata :: DocumentMetadata

datatype WhereFilter =
    EqString string string
  | EqInt string int
  | EqFloat string float64

datatype get_option = WithWhereGet WhereFilter | WithIDsGet "string list"

datatype query_option =
    WithQueryTexts string
  | WithNResults int
  | WithWhereQuery "WhereFilter option"

record CollectionQueryOp =
  QueryTexts :: "string list"
  NResults :: "int option"
  Where :: "WhereFilter option"

record GetResult =
  GetIDs :: "string list"
  GetDocuments :: "string list"
  GetMetadatas :: "DocumentMetadata list"

record QueryResult =
  GetDocumentsGroups :: "string list list"
  GetIDGroups :: "string list list"
  GetMetadatasGroups :: "DocumentMetadata option list list"
  GetDistancesGroups :: "float32 list list"

record store =
  collections :: "string \<rightharpoonup> row list"
  faults :: "store_error option list"
  engine :: "string \<Rightarrow> row list \<Rightarrow> CollectionQueryOp \<Rightarrow> QueryResult"

definition next_fault :: "store \<Rightarrow> store_error option \<times> store" where
  "next_fault st =
     (case faults st of [] \<Rightarrow> (None, st) | f # fs \<Rightarrow> (f, st\<lparr>faults := fs\<rparr>))"

definition not_found :: store_error where
  "not_found = StoreError ''collection does not exist''"

definition GetOrCreateCollection :: "string \<Rightarrow> store \<Rightarrow> (store_error + string) \<times> store" where
  "GetOrCreateCollection name st =
     (case next_fault st of
        (Some e, st') \<Rightarrow> (Inl e, st')
      | (None, st') \<Rightarrow>
          (Inr name,
           (case collections st' name of
              Some _ \<Rightarrow> st'
            | None \<Rightarrow> st'\<lparr>collections := (collections st')(name \<mapsto> [])\<rparr>)))"

definition GetCollection :: "string \<Rightarrow> store \<Rightarrow> (store_error + string) \<times> store" where
  "GetCollection name st =
     (case next_fault st of
        (Some e, st') \<Rightarrow> (Inl e, st')
      | (None, st') \<Rightarrow>
          (case collections st' name of
             Some _ \<Rightarrow> (Inr name, st')
           | None \<Rightarrow> (Inl not_found, st')))"

text \<open>
  The core issues \<open>Get\<close> with the string equality on \<open>file_md5\<close> only; the clauses
  built by \<open>Search\<close> go to the engine.
\<close>

fun where_matches :: "WhereFilter \<Rightarrow> DocumentMetadata \<Rightarrow> bool" where
  "where_matches (EqString k v) m = (m k = Some (AString v))"
| "where_matches (EqInt k v) m = (m k = Some (AInt v))"
| "where_matches (EqFloat k v) m = (m k = Some (AFloat v))"

fun selects :: "get_option \<Rightarrow> row \<Rightarrow> bool" where
  "selects (WithWhereGet w) r = where_matches w (row_metadata r)"
| "selects (WithIDsGet ids) r = (row_id r \<in> set ids)"

definition collection_Get ::
  "string \<Rightarrow> get_option \<Rightarrow> store \<Rightarrow> (store_error + GetResult) \<times> store" where
  "collection_Get name opt st =
     (case next_fault st of
        (Some e, st') \<Rightarrow> (Inl e, st')
      | (None, st') \<Rightarrow>
          (case collections st' name of
             None \<Rightarrow> (Inl not_found, st')
           | Some rows \<Rightarrow>
               (let hits = filter (selects opt) rows in
                (Inr \<lparr>GetIDs = map row_id hits, GetDocuments = map row_document hits,
                      GetMetadatas = map row_metadata hits\<rparr>, st'))))"

text \<open>
  Adding rows: a row whose id the collection already holds is ignored, the others are
  appended in order.
\<close>

definition add_row :: "row \<Rightarrow> row list \<Rightarrow> row list" where
  "add_row r rows = (if row_id r \<in> row_id ` set rows then rows else rows @ [r])"

definition mk_rows :: "string list \<Rightarrow> string list \<Rightarrow> DocumentMetadata list \<Rightarrow> row list" where
  "mk_rows ids texts metadatas =
     map (\<lambda>(i, t, m). \<lparr>row_id = i, row_document = t, row_metadata = m\<rparr>)
       (zip ids (zip texts metadatas))"

definition collection_Add ::
  "string \<Rightarrow> string list \<Rightarrow> string list \<Rightarrow> DocumentMetadata list \<Rightarrow> store
     \<Rightarrow> (store_error + unit) \<times> store" where
  "collection_Add name ids texts metadatas st =
     (case next_fault st of
        (Some e, st') \<Rightarrow> (Inl e, st')
      | (None, st') \<Rightarrow>
          (case collections st' name of
             None \<Rightarrow> (Inl not_found, st')
           | Some rows \<Rightarrow>
               (Inr (),
                st'\<lparr>collections :=
                      (collections st')(name \<mapsto> fold add_row (mk_rows ids texts metadatas) rows)\<rparr>)))"

text \<open>
  The client applies the query options in order to build the query it sends; the engine
  answers it.
\<close>

fun apply_option :: "query_option \<Rightarrow> CollectionQueryOp \<Rightarrow> CollectionQueryOp" where
  "apply_option (WithQueryTexts q) op = op\<lparr>QueryTexts := [q]\<rparr>"
| "apply_option (WithNResults n) op = op\<lparr>NResults := Some n\<rparr>"
| "apply_option (WithWhereQuery w) op = op\<lparr>Where := w\<rparr>"

definition build_query :: "query_option list \<Rightarrow> CollectionQueryOp" where
  "build_query opts = fold apply_option opts \<lparr>QueryTexts = [], NResults = None, Where = None\<rparr>"

definition collection_Query ::
  "string \<Rightarrow> query_option list \<Rightarrow> store \<Rightarrow> (store_error + QueryResult) \<times> store" where
  "collection_Query name opts st =
     (case next_fault st of
        (Some e, st') \<Rightarrow> (Inl e, st')
      | (None, st') \<Rightarrow>
          (case collections st' name of
             None \<Rightarrow> (Inl not_found, st')
           | Some rows \<Rightarrow> (Inr (engine st' name rows (build_query opts)), st')))"

section \<open>The ingestion service (internal/services/ingest.go)\<close>

text \<open>
  What the service takes from the Go libraries: the hex digest of the MD5 sum of a byte
  sequence, the hex form of the first 8 bytes of its SHA-256 sum, and the clock.
  \<open>unix_now i\<close> is the value of the \<open>i\<close>-th call of \<open>time.Now().Unix()\<close> in one call
  of \<open>IngestFile\<close>, which reads the clock once in every iteration of its loop over the chunks.
\<close>

record env =
  md5_hex :: "string \<Rightarrow> string"
  sha256_hex8 :: "string \<Rightarrow> string"
  unix_now :: "nat \<Rightarrow> int"

text \<open>\<open>fmt.Sprintf("%d", i)\<close> for an index \<open>i\<close>.\<close>

definition digit :: "nat \<Rightarrow> char" where
  "digit d = char_of (48 + d)"

fun Sprintf_d :: "nat \<Rightarrow> string" where
  "Sprintf_d n = (if n < 10 then [digit n] else Sprintf_d (n div 10) @ [digit (n mod 10)])"

declare Sprintf_d.simps [simp del]

record IngestResult =
  Status :: string
  File :: string
  Chunks :: nat

text \<open>The body of the loop over the chunks: the id and the metadata map of chunk \<open>i\<close>.\<close>

definition chunkID :: "env \<Rightarrow> string \<Rightarrow> string \<Rightarrow> nat \<Rightarrow> string" where
  "chunkID e filePath chunk i = sha256_hex8 e (filePath @ chunk @ Sprintf_d i)"

definition chunkMetadata :: "env \<Rightarrow> string \<Rightarrow> string \<Rightarrow> gomap \<Rightarrow> nat \<Rightarrow> gomap" where
  "chunkMetadata e md5Hash filePath userMetadata i =
     fold (\<lambda>(key, value) metadata. AList.update (''user_'' @ key) value metadata) userMetadata
       [(''file_md5'', VString md5Hash),
        (''file_name'', VString filePath),
        (''timestamp'', VInt64 (unix_now e i)),
        (''chunk_index'', VInt (int i))]"

text \<open>
  The conversion to the store's metadata: the type switch has the cases \<open>string\<close>,
  \<open>int64\<close> and \<open>float64\<close>; a value of any other dynamic type adds no attribute.
\<close>

fun ingestAttribute :: "string \<Rightarrow> gvalue \<Rightarrow> (string \<times> attr) option" where
  "ingestAttribute k (VString val) = Some (k, AString val)"
| "ingestAttribute k (VInt64 val) = Some (k, AInt val)"
| "ingestAttribute k (VFloat64 val) = Some (k, AFloat val)"
| "ingestAttribute k _ = None"

definition chromaMetadata :: "gomap \<Rightarrow> DocumentMetadata" where
  "chromaMetadata m = NewDocumentMetadata (List.map_filter (\<lambda>(k, v). ingestAttribute k v) m)"

definition IngestFile ::
  "env \<Rightarrow> string \<Rightarrow> string \<Rightarrow> string \<Rightarrow> gomap \<Rightarrow> store
     \<Rightarrow> (error + IngestResult) \<times> store" where
  "IngestFile e collectionName filePath content userMetadata st =
     (case GetOrCreateCollection collectionName st of
        (Inl err, st1) \<Rightarrow> (Inl (Wrapped ''failed to get/create collection'' err), st1)
      | (Inr collection, st1) \<Rightarrow>
          (let md5Hash = md5_hex e content in
           case collection_Get collection (WithWhereGet (EqString ''file_md5'' md5Hash)) st1 of
             (Inl err, st2) \<Rightarrow> (Inl (StoreErr err), st2)
           | (Inr results, st2) \<Rightarrow>
               if length (GetDocuments results) > 0
               then (Inr \<lparr>Status = ''skipped'', File = filePath, Chunks = 0\<rparr>, st2)
               else
                 (let chunks = chunkText content 512;
                      ids = map (\<lambda>(i, chunk). chunkID e filePath chunk i) (enumerate 0 chunks);
                      metadatas = map (\<lambda>(i, chunk). chunkMetadata e md5Hash filePath userMetadata i)
                                    (enumerate 0 chunks);
                      chromaMetadatas = map chromaMetadata metadatas
                  in case collection_Add collection ids chunks chromaMetadatas st2 of
                       (Inl err, st3) \<Rightarrow> (Inl (StoreErr err), st3)
                     | (Inr _, st3) \<Rightarrow>
                         (Inr \<lparr>Status = ''ingested'', File = filePath,
                               Chunks = length chunks\<rparr>, st3))))"

subsection \<open>Search\<close>

record SearchResult =
  ID :: string
  Document :: string
  Metadata :: gomap
  Distance :: float32

text \<open>
  The loop over the filter map: every entry of a supported type overwrites the clause.
  \<open>EqFloat k val\<close> stands for \<open>chroma.EqFloat(k, float32(val))\<close>: the clause is kept with
  the \<open>float64\<close> it is built from.
\<close>

fun whereLoop :: "gomap \<Rightarrow> WhereFilter option \<Rightarrow> WhereFilter option" where
  "whereLoop [] whereClause = whereClause"
| "whereLoop ((k, v) # kvs) whereClause =
     whereLoop kvs
       (case v of
          VString val \<Rightarrow> Some (EqString k val)
        | VInt val \<Rightarrow> Some (EqInt k val)
        | VFloat64 val \<Rightarrow> Some (EqFloat k val)
        | _ \<Rightarrow> whereClause)"

definition queryOptions :: "string \<Rightarrow> int \<Rightarrow> gomap \<Rightarrow> query_option list" where
  "queryOptions query k filterMap =
     [WithQueryTexts query, WithNResults k]
     @ (if length filterMap > 0 then [WithWhereQuery (whereLoop filterMap None)] else [])"

text \<open>An index expression \<open>xs[i]\<close>: out of range it panics.\<close>

definition index :: "'a list \<Rightarrow> nat \<Rightarrow> error + 'a" where
  "index xs i = (if i < length xs then Inr (xs ! i) else Inl (Panic ''index out of range''))"

text \<open>
  The loop over the documents of the first group, \<open>i\<close> being the index of \<open>doc\<close> and
  \<open>searchResults\<close> the results appended so far.
\<close>

fun flattenLoop ::
  "nat \<Rightarrow> string list \<Rightarrow> string list \<Rightarrow> DocumentMetadata option list \<Rightarrow> float32 list
     \<Rightarrow> SearchResult list \<Rightarrow> error + SearchResult list" where
  "flattenLoop i [] ids metadatas distances searchResults = Inr searchResults"
| "flattenLoop i (doc # docs) ids metadatas distances searchResults =
     (case (if i < length metadatas \<and> metadatas ! i \<noteq> None
            then (case index ids i of
                    Inl p \<Rightarrow> Inl p
                  | Inr id0 \<Rightarrow>
                      Inr (if i < length distances
                           then AList.update ''distance'' (VDistance (distances ! i))
                                  [(''id'', VString id0), (''document'', VDocument doc)]
                           else [(''id'', VString id0), (''document'', VDocument doc)]))
            else Inr []) of
        Inl p \<Rightarrow> Inl p
      | Inr metadataMap \<Rightarrow>
          (case index ids i of
             Inl p \<Rightarrow> Inl p
           | Inr id1 \<Rightarrow>
               (case index distances i of
                  Inl p \<Rightarrow> Inl p
                | Inr d \<Rightarrow>
                    flattenLoop (Suc i) docs ids metadatas distances
                      (searchResults
                       @ [\<lparr>ID = id1, Document = doc, Metadata = metadataMap, Distance = d\<rparr>]))))"

definition flatten :: "QueryResult \<Rightarrow> error + SearchResult list" where
  "flatten results =
     (let docsGroups = GetDocumentsGroups results;
          idsGroups = GetIDGroups results;
          metadatasGroups = GetMetadatasGroups results;
          distancesGroups = GetDistancesGroups results
      in if length docsGroups > 0 \<and> length (docsGroups ! 0) > 0
         then (case index idsGroups 0 of
                 Inl p \<Rightarrow> Inl p
               | Inr ids \<Rightarrow>
                   (case index metadatasGroups 0 of
                      Inl p \<Rightarrow> Inl p
                    | Inr metadatas \<Rightarrow>
                        (case index distancesGroups 0 of
                           Inl p \<Rightarrow> Inl p
                         | Inr distances \<Rightarrow>
                             flattenLoop 0 (docsGroups ! 0) ids metadatas distances [])))
         else Inr [])"

definition Search ::
  "string \<Rightarrow> string \<Rightarrow> int \<Rightarrow> gomap \<Rightarrow> store \<Rightarrow> (error + SearchResult list) \<times> store" where
  "Search collectionName query k filterMap st =
     (case GetCollection collectionName st of
        (Inl err, st1) \<Rightarrow>
          (Inl (Wrapped (''failed to get collection '' @ [CHR 0x27] @ collectionName @ [CHR 0x27])
                  err), st1)
      | (Inr collection, st1) \<Rightarrow>
          (case collection_Query collection (queryOptions query k filterMap) st1 of
             (Inl err, st2) \<Rightarrow> (Inl (StoreErr err), st2)
           | (Inr results, st2) \<Rightarrow> (flatten results, st2)))"

subsection \<open>CreateDocDirect\<close>

text \<open>
  The type switch of \<open>CreateDocDirect\<close> has the cases \<open>string\<close>, \<open>int\<close>, \<open>int64\<close>
  and \<open>float64\<close>.
\<close>

fun directAttribute :: "string \<Rightarrow> gvalue \<Rightarrow> (string \<times> attr) option" where
  "directAttribute k (VString val) = Some (k, AString val)"
| "directAttribute k (VInt val) = Some (k, AInt val)"
| "directAttribute k (VInt64 val) = Some (k, AInt val)"
| "directAttribute k (VFloat64 val) = Some (k, AFloat val)"
| "directAttribute k _ = None"

definition CreateDocDirect ::
  "env \<Rightarrow> string \<Rightarrow> string \<Rightarrow> string \<Rightarrow> gomap \<Rightarrow> store \<Rightarrow> (error + string) \<times> store" where
  "CreateDocDirect e collectionName id0 text metadata st =
     (if text = [] then (Inl (Errorf ''text is required''), st)
      else
        (case GetOrCreateCollection collectionName st of
           (Inl err, st1) \<Rightarrow> (Inl (Wrapped ''get/create collection'' err), st1)
         | (Inr collection, st1) \<Rightarrow>
             (let docID = (if id0 = [] then sha256_hex8 e text else id0);
                  (conflict, st2) =
                     (if id0 \<noteq> []
                      then (case collection_Get collection (WithIDsGet [id0]) st1 of
                              (Inr got, s) \<Rightarrow> (length (GetIDs got) > 0, s)
                            | (Inl err, s) \<Rightarrow> (False, s))
                      else (False, st1))
              in if conflict then (Inl (Errorf ''conflict: id already exists''), st2)
                 else
                   (let md = NewDocumentMetadata
                               (List.map_filter (\<lambda>(k, v). directAttribute k v) metadata)
                    in case collection_Add collection [docID] [text] [md] st2 of
                         (Inl err, st3) \<Rightarrow> (Inl (Wrapped ''add document'' err), st3)
                       | (Inr _, st3) \<Rightarrow> (Inr docID, st3)))))"

section \<open>Auxiliary definitions for the statements\<close>

text \<open>The dynamic types for which the type switch of \<open>Search\<close> builds a clause.\<close>

definition filterSupported :: "gvalue \<Rightarrow> bool" where
  "filterSupported v =
     (case v of VString _ \<Rightarrow> True | VInt _ \<Rightarrow> True | VFloat64 _ \<Rightarrow> True | _ \<Rightarrow> False)"

text \<open>
  The result that one iteration of the loop of \<open>Search\<close> appends for document \<open>doc\<close> at
  index \<open>i\<close>, when \<open>i\<close> is in range of the ids and the distances.
\<close>

definition resultAt ::
  "string list \<Rightarrow> DocumentMetadata option list \<Rightarrow> float32 list \<Rightarrow> nat \<Rightarrow> string
     \<Rightarrow> SearchResult" where
  "resultAt ids ms ds i doc =
     \<lparr>ID = ids ! i, Document = doc,
      Metadata = (if i < length ms \<and> ms ! i \<noteq> None
                  then [(''id'', VString (ids ! i)), (''document'', VDocument doc),
                        (''distance'', VDistance (ds ! i))]
                  else []),
      Distance = ds ! i\<rparr>"

text \<open>The rows of a collection, none when the collection does not exist.\<close>

definition rows_of :: "store \<Rightarrow> string \<Rightarrow> row list" where
  "rows_of st name = (case collections st name of None \<Rightarrow> [] | Some rows \<Rightarrow> rows)"

text \<open>
  The row that \<open>IngestFile\<close> hands to the store for chunk \<open>i\<close>, and the rows of one
  call in index order.
\<close>

definition chunkRow :: "env \<Rightarrow> string \<Rightarrow> string \<Rightarrow> gomap \<Rightarrow> nat \<Rightarrow> string \<Rightarrow> row" where
  "chunkRow e md5Hash filePath um i chunk =
     \<lparr>row_id = chunkID e filePath chunk i, row_document = chunk,
      row_metadata = chromaMetadata (chunkMetadata e md5Hash filePath um i)\<rparr>"

definition ingestRows :: "env \<Rightarrow> string \<Rightarrow> string \<Rightarrow> gomap \<Rightarrow> row list" where
  "ingestRows e filePath content um =
     map (\<lambda>(i, chunk). chunkRow e (md5_hex e content) filePath um i chunk)
       (enumerate 0 (chunkText content 512))"


subsection \<open>Concrete inputs\<close>

text \<open>
  Stand-ins for the two digests (the general theorems hold for every \<open>env\<close>) and a clock
  that advances by one second between two readings.
\<close>

definition env0 :: env where
  "env0 = \<lparr>md5_hex = (\<lambda>s. ''md5:'' @ s), sha256_hex8 = (\<lambda>s. ''sha256:'' @ s),
           unix_now = (\<lambda>i. 1700000000 + int i)\<rparr>"

text \<open>An engine that answers every query with all rows of the collection, at distance 0.\<close>

definition echo_engine :: "string \<Rightarrow> row list \<Rightarrow> CollectionQueryOp \<Rightarrow> QueryResult" where
  "echo_engine name rows op =
     \<lparr>GetDocumentsGroups = [map row_document rows], GetIDGroups = [map row_id rows],
      GetMetadatasGroups = [map (\<lambda>r. Some (row_metadata r)) rows],
      GetDistancesGroups = [map (\<lambda>r. 0) rows]\<rparr>"

definition store0 :: store where
  "store0 = \<lparr>collections = Map.empty, faults = [], engine = echo_engine\<rparr>"

definition row1 :: row where
  "row1 = \<lparr>row_id = ''doc-1'', row_document = ''hello'',
           row_metadata = [''file_md5'' \<mapsto> AString ''abc'']\<rparr>"

definition store1 :: store where
  "store1 = \<lparr>collections = [''docs'' \<mapsto> [row1]], faults = [], engine = echo_engine\<rparr>"

text \<open>
  A text of two lines: 512 words on the first, one on the second. With the bound 512 of
  \<open>IngestFile\<close> it makes two chunks.
\<close>

definition line512 :: string where
  "line512 = concat (replicate 512 ''a '')"

definition two_lines :: string where
  "two_lines = line512 @ [newline] @ ''b''"

text \<open>
  The store after the two-line text was ingested as \<open>a.txt\<close> into the empty store.
\<close>

definition store2 :: store where
  "store2 = snd (IngestFile env0 ''docs'' ''a.txt'' two_lines [] store0)"


section \<open>Properties of the chunker\<close>

lemma Split_not_Nil: "Split s \<noteq> []"
  by (induction s) (auto split: list.splits)

lemma Split_join: "concat (map (\<lambda>l. l @ [newline]) (Split s)) = s @ [newline]"
proof (induction s)
  case Nil
  show ?case by simp
next
  case (Cons c cs)
  show ?case
  proof (cases "c = newline")
    case True
    with Cons show ?thesis by simp
  next
    case False
    obtain l ls where sp: "Split cs = l # ls"
      using Split_not_Nil [of cs] by (cases "Split cs") auto
    with Cons False show ?thesis by simp
  qed
qed

lemma chunkLoop_concat:
  "concat (chunkLoop m ls chunks cur n)
     = concat chunks @ cur @ concat (map (\<lambda>l. l @ [newline]) ls)"
  by (induction m ls chunks cur n rule: chunkLoop.induct) (simp_all add: Let_def)

lemma chunkLoop_nonempty:
  "ls \<noteq> [] \<Longrightarrow> chunkLoop m ls chunks cur n \<noteq> []"
proof (induction m ls chunks cur n rule: chunkLoop.induct)
  case (1 m chunks cur n)
  then show ?case by simp
next
  case (2 m line lines chunks cur n)
  show ?case
  proof (cases lines)
    case Nil
    then show ?thesis by (simp add: Let_def)
  next
    case (Cons a as)
    with 2 show ?thesis by (simp add: Let_def)
  qed
qed

lemma chunkText_nonempty: "chunkText text maxTokens \<noteq> []"
  by (simp add: chunkText_def chunkLoop_nonempty Split_not_Nil)

text \<open>
  C4. Concatenating the chunks of \<open>chunkText\<close> in index order gives back the text, followed
  by one newline: every piece between separators gets its separator back, and the last piece
  gets one too. This holds for every text and every bound.
\<close>

theorem chunkText_reconstruct:
  "concat (chunkText text maxTokens) = text @ [newline]"
  by (simp add: chunkText_def chunkLoop_concat Split_join)

section \<open>The store calls, by the outcome the script gives them\<close>

lemma next_fault_Nil: "faults st = [] \<Longrightarrow> next_fault st = (None, st)"
  by (simp add: next_fault_def)

lemma next_fault_Cons: "faults st = f # fs \<Longrightarrow> next_fault st = (f, st\<lparr>faults := fs\<rparr>)"
  by (simp add: next_fault_def)

lemma GetOrCreateCollection_fail:
  "faults st = Some err # fs \<Longrightarrow>
     GetOrCreateCollection c st = (Inl err, st\<lparr>faults := fs\<rparr>)"
  by (simp add: GetOrCreateCollection_def next_fault_Cons)

lemma GetOrCreateCollection_ok:
  "faults st = None # fs \<Longrightarrow>
     \<exists>st1. GetOrCreateCollection c st = (Inr c, st1) \<and> faults st1 = fs
       \<and> collections st1 c \<noteq> None"
  by (simp add: GetOrCreateCollection_def next_fault_Cons split: option.split)

lemma GetCollection_fail:
  "faults st = Some err # fs \<Longrightarrow> GetCollection c st = (Inl err, st\<lparr>faults := fs\<rparr>)"
  by (simp add: GetCollection_def next_fault_Cons)

lemma collection_Get_fail:
  "faults st = Some err # fs \<Longrightarrow> collection_Get c opt st = (Inl err, st\<lparr>faults := fs\<rparr>)"
  by (simp add: collection_Get_def next_fault_Cons)

lemma collection_Get_ok:
  "faults st = None # fs \<Longrightarrow> collections st c \<noteq> None \<Longrightarrow>
     \<exists>got st1. collection_Get c opt st = (Inr got, st1) \<and> faults st1 = fs
       \<and> collections st1 c \<noteq> None"
  by (auto simp add: collection_Get_def next_fault_Cons Let_def)

lemma collection_Add_fail:
  "faults st = Some err # fs \<Longrightarrow>
     collection_Add c ids texts ms st = (Inl err, st\<lparr>faults := fs\<rparr>)"
  by (simp add: collection_Add_def next_fault_Cons)

lemma collection_Add_ok:
  "faults st = None # fs \<Longrightarrow> collections st c \<noteq> None \<Longrightarrow>
     \<exists>st1. collection_Add c ids texts ms st = (Inr (), st1)"
  by (auto simp add: collection_Add_def next_fault_Cons)

lemma collection_Query_fail:
  "faults st = Some err # fs \<Longrightarrow> collection_Query c opts st = (Inl err, st\<lparr>faults := fs\<rparr>)"
  by (simp add: collection_Query_def next_fault_Cons)

lemma collection_Query_cong:
  "build_query opts = build_query opts' \<Longrightarrow>
     collection_Query name opts st = collection_Query name opts' st"
  by (simp add: collection_Query_def split: prod.split option.split)


section \<open>Empty input of the chunker\<close>

text \<open>
  C5. The claim is that \<open>chunkText\<close> returns no chunk for the empty string. The code returns
  one chunk, a single newline, for every bound: \<open>strings.Split("", "\n")\<close> is the one-element
  slice \<open>[""]\<close>, so the loop runs once and writes \<open>"" + "\n"\<close>, and the final test
  \<open>currentChunk.Len() > 0\<close>, the only way to return no chunk, is true.
\<close>

theorem chunkText_empty: "chunkText [] maxTokens = [[newline]]"
  by (simp add: chunkText_def lenFields_def)

section \<open>Filter translation\<close>

lemma whereLoop_unsupported:
  "\<forall>kv \<in> set filterMap. \<not> filterSupported (snd kv) \<Longrightarrow> whereLoop filterMap w = w"
  by (induction filterMap w rule: whereLoop.induct)
     (auto simp: filterSupported_def split: gvalue.splits)

lemma build_query_options:
  "build_query (queryOptions query k filterMap) =
     \<lparr>QueryTexts = [query], NResults = Some k,
      Where = (if filterMap = [] then None else whereLoop filterMap None)\<rparr>"
  by (simp add: build_query_def queryOptions_def)

lemma queryOptions_unsupported:
  "\<forall>kv \<in> set filterMap. \<not> filterSupported (snd kv) \<Longrightarrow>
     build_query (queryOptions query k filterMap) = build_query (queryOptions query k [])"
  by (simp add: build_query_options whereLoop_unsupported)


text \<open>
  C6. The query built for an empty (or nil) filter map carries no predicate. A filter with
  one entry whose value is a \<open>string\<close>, an \<open>int\<close> or a \<open>float64\<close> gives the equality
  predicate of that entry. When no value of a filter map has one of these three types, the
  query carries no predicate, and \<open>Search\<close> does exactly what it does with the empty
  filter.
\<close>

theorem Search_filter_ignored:
  "Where (build_query (queryOptions query k [])) = None
   \<and> Where (build_query (queryOptions query k [(key, VString s)])) = Some (EqString key s)
   \<and> Where (build_query (queryOptions query k [(key, VInt n)])) = Some (EqInt key n)
   \<and> Where (build_query (queryOptions query k [(key, VFloat64 x)])) = Some (EqFloat key x)
   \<and> ((\<forall>kv \<in> set filterMap. \<not> filterSupported (snd kv)) \<longrightarrow>
        Where (build_query (queryOptions query k filterMap)) = None
        \<and> Search collectionName query k filterMap st = Search collectionName query k [] st)"
proof (intro conjI impI)
  show "Where (build_query (queryOptions query k [])) = None"
    by (simp add: build_query_options)
next
  show "Where (build_query (queryOptions query k [(key, VString s)])) = Some (EqString key s)"
    by (simp add: build_query_options)
next
  show "Where (build_query (queryOptions query k [(key, VInt n)])) = Some (EqInt key n)"
    by (simp add: build_query_options)
next
  show "Where (build_query (queryOptions query k [(key, VFloat64 x)])) = Some (EqFloat key x)"
    by (simp add: build_query_options)
next
  assume u: "\<forall>kv \<in> set filterMap. \<not> filterSupported (snd kv)"
  then show "Where (build_query (queryOptions query k filterMap)) = None"
    by (simp add: build_query_options whereLoop_unsupported)
  have "\<And>name s. collection_Query name (queryOptions query k filterMap) s
          = collection_Query name (queryOptions query k []) s"
    by (rule collection_Query_cong) (rule queryOptions_unsupported [OF u])
  then show "Search collectionName query k filterMap st = Search collectionName query k [] st"
    by (simp add: Search_def split: prod.split sum.split)
qed


theorem Search_filter_ignored_witness:
  "\<not> filterSupported (VBool True) \<and> \<not> filterSupported VOther
   \<and> Where (build_query (queryOptions ''q'' 5 [(''draft'', VBool True), (''tags'', VOther)])) = None
   \<and> Search ''docs'' ''q'' 5 [(''draft'', VBool True), (''tags'', VOther)] store1
       = Search ''docs'' ''q'' 5 [] store1"
  using Search_filter_ignored
          [where query = "''q''" and k = 5
             and filterMap = "[(''draft'', VBool True), (''tags'', VOther)]"
             and collectionName = "''docs''" and st = store1]
  by (simp add: filterSupported_def)

section \<open>Search results\<close>

lemma flattenLoop_in_range:
  "i + length docs \<le> length ids \<Longrightarrow> i + length docs \<le> length ds \<Longrightarrow>
     flattenLoop i docs ids ms ds acc
       = Inr (acc @ map (\<lambda>(j, doc). resultAt ids ms ds j doc) (enumerate i docs))"
proof (induction docs arbitrary: i acc)
  case Nil
  show ?case by simp
next
  case (Cons doc docs)
  from Cons.prems have r: "i < length ids" "i < length ds" by simp_all
  from Cons.prems have "Suc i + length docs \<le> length ids" "Suc i + length docs \<le> length ds"
    by simp_all
  note ih = Cons.IH [OF this]
  show ?case
    using r by (simp add: index_def ih resultAt_def)
qed

lemma map_enumerate_fst_nth:
  "i + length xs \<le> length ys \<Longrightarrow>
     map (\<lambda>(j, x). ys ! j) (enumerate i xs) = take (length xs) (drop i ys)"
proof (induction xs arbitrary: i)
  case Nil
  show ?case by simp
next
  case (Cons x xs)
  then have "i < length ys" by simp
  then have "drop i ys = ys ! i # drop (Suc i) ys"
    by (simp add: Cons_nth_drop_Suc)
  with Cons show ?case by simp
qed

lemma map_enumerate_snd: "map (\<lambda>(j, x). x) (enumerate i xs) = xs"
  by (induction xs arbitrary: i) simp_all

lemma Search_healthy:
  assumes "faults st = []" "collections st c = Some rows"
  shows "Search c q k fm st = (flatten (engine st c rows (build_query (queryOptions q k fm))), st)"
  using assms
  by (simp add: Search_def GetCollection_def collection_Query_def next_fault_Nil)

lemma flatten_empty_group:
  "GetDocumentsGroups results = [] # dgs \<Longrightarrow> flatten results = Inr []"
  by (simp add: flatten_def)

lemma flatten_parallel:
  assumes "GetDocumentsGroups results = docs # dgs" "docs \<noteq> []"
    and "GetIDGroups results = ids # igs" "GetMetadatasGroups results = ms # mgs"
    and "GetDistancesGroups results = ds # dsgs"
    and "length docs \<le> length ids" "length docs \<le> length ds"
  shows "flatten results = Inr (map (\<lambda>(j, doc). resultAt ids ms ds j doc) (enumerate 0 docs))"
  using assms by (simp add: flatten_def index_def flattenLoop_in_range)


text \<open>
  C7. The store answers (no call fails) with a response whose first group of documents is
  \<open>docs\<close>. When \<open>docs\<close> is empty, \<open>Search\<close> returns the empty sequence and no error.
  When it is not, and the ids and distances of the first group are parallel to it,
  \<open>Search\<close> returns one result per document, in order, with the document's text, id and
  distance.
\<close>

theorem Search_flattening:
  assumes "faults st = []" and "collections st c = Some rows"
    and "engine st c rows (build_query (queryOptions q k fm)) = results"
    and "GetDocumentsGroups results = docs # dgs"
  shows "(docs = [] \<longrightarrow> Search c q k fm st = (Inr [], st))
       \<and> (docs \<noteq> [] \<and> GetIDGroups results = ids # igs \<and> GetMetadatasGroups results = ms # mgs
            \<and> GetDistancesGroups results = ds # dsgs
            \<and> length ids = length docs \<and> length ds = length docs \<longrightarrow>
          (\<exists>rs. Search c q k fm st = (Inr rs, st) \<and> length rs = length docs
                \<and> map Document rs = docs \<and> map Distance rs = ds \<and> map ID rs = ids))"
proof (intro conjI impI)
  assume "docs = []"
  with assms show "Search c q k fm st = (Inr [], st)"
    by (simp add: Search_healthy flatten_empty_group)
next
  assume h: "docs \<noteq> [] \<and> GetIDGroups results = ids # igs \<and> GetMetadatasGroups results = ms # mgs
            \<and> GetDistancesGroups results = ds # dsgs
            \<and> length ids = length docs \<and> length ds = length docs"
  let ?rs = "map (\<lambda>(j, doc). resultAt ids ms ds j doc) (enumerate 0 docs)"
  have f: "flatten results = Inr ?rs"
    using assms(4) h by (intro flatten_parallel) simp_all
  have 1: "Search c q k fm st = (Inr ?rs, st)"
    using assms f by (simp add: Search_healthy)
  have 2: "length ?rs = length docs" by simp
  have 3: "map Document ?rs = docs"
    using map_enumerate_snd [of 0 docs]
    by (simp add: resultAt_def case_prod_unfold comp_def)
  have 4: "map Distance ?rs = ds"
    using map_enumerate_fst_nth [of 0 docs ds] h
    by (simp add: resultAt_def case_prod_unfold comp_def)
  have 5: "map ID ?rs = ids"
    using map_enumerate_fst_nth [of 0 docs ids] h
    by (simp add: resultAt_def case_prod_unfold comp_def)
  from 1 2 3 4 5 show "\<exists>rs. Search c q k fm st = (Inr rs, st) \<and> length rs = length docs
                \<and> map Document rs = docs \<and> map Distance rs = ds \<and> map ID rs = ids"
    by blast
qed


theorem Search_flattening_witness:
  "Search ''docs'' ''q'' 5 [] (store0\<lparr>collections := [''docs'' \<mapsto> []]\<rparr>)
     = (Inr [], store0\<lparr>collections := [''docs'' \<mapsto> []]\<rparr>)
   \<and> (\<exists>rs. Search ''docs'' ''q'' 5 [] store1 = (Inr rs, store1) \<and> length rs = length [''hello'']
         \<and> map Document rs = [''hello''] \<and> map Distance rs = [0] \<and> map ID rs = [''doc-1''])"
proof
  have e: "engine (store0\<lparr>collections := [''docs'' \<mapsto> []]\<rparr>) ''docs'' []
             (build_query (queryOptions ''q'' 5 []))
           = \<lparr>GetDocumentsGroups = [[]], GetIDGroups = [[]], GetMetadatasGroups = [[]],
              GetDistancesGroups = [[]]\<rparr>"
    by (simp add: store0_def echo_engine_def)
  show "Search ''docs'' ''q'' 5 [] (store0\<lparr>collections := [''docs'' \<mapsto> []]\<rparr>)
          = (Inr [], store0\<lparr>collections := [''docs'' \<mapsto> []]\<rparr>)"
    using Search_flattening [OF _ _ e, of "[]" "[]" "[]" "[]" "[]" "[]" "[]" "[]"]
    by (simp add: store0_def)
next
  have e: "engine store1 ''docs'' [row1] (build_query (queryOptions ''q'' 5 []))
           = \<lparr>GetDocumentsGroups = [[''hello'']], GetIDGroups = [[''doc-1'']],
              GetMetadatasGroups = [[Some [''file_md5'' \<mapsto> AString ''abc'']]],
              GetDistancesGroups = [[0]]\<rparr>"
    by (simp add: store1_def echo_engine_def row1_def)
  show "\<exists>rs. Search ''docs'' ''q'' 5 [] store1 = (Inr rs, store1) \<and> length rs = length [''hello'']
         \<and> map Document rs = [''hello''] \<and> map Distance rs = [0] \<and> map ID rs = [''doc-1'']"
    using Search_flattening [OF _ _ e, of "[''hello'']" "[]" "[''doc-1'']" "[]"
            "[Some [''file_md5'' \<mapsto> AString ''abc'']]" "[]" "[0]" "[]"]
    by (simp add: store1_def)
qed

text \<open>
  C8. The claim is that a result carries the metadata record of the stored chunk. The code
  only tests whether the metadata entry of the response is present: the map it returns has
  the keys \<open>id\<close>, \<open>document\<close> and \<open>distance\<close>, and none of the keys of the stored record.
  Here the store answers with a record that has \<open>file_md5\<close>; the result does not have it.
\<close>

theorem Search_metadata_counterexample:
  "GetMetadatasGroups (engine store1 ''docs'' [row1] (build_query (queryOptions ''q'' 5 [])))
     = [[Some [''file_md5'' \<mapsto> AString ''abc'']]]
   \<and> fst (Search ''docs'' ''q'' 5 [] store1)
       = Inr [\<lparr>ID = ''doc-1'', Document = ''hello'',
               Metadata = [(''id'', VString ''doc-1''), (''document'', VDocument ''hello''),
                           (''distance'', VDistance 0)],
               Distance = 0\<rparr>]
   \<and> map_of [(''id'', VString ''doc-1''), (''document'', VDocument ''hello''),
             (''distance'', VDistance 0)] ''file_md5'' = None"
proof -
  have h: "Search ''docs'' ''q'' 5 [] store1
             = (flatten (engine store1 ''docs'' [row1] (build_query (queryOptions ''q'' 5 []))),
                store1)"
    by (rule Search_healthy) (simp_all add: store1_def)
  have e: "engine store1 ''docs'' [row1] (build_query (queryOptions ''q'' 5 []))
           = \<lparr>GetDocumentsGroups = [[''hello'']], GetIDGroups = [[''doc-1'']],
              GetMetadatasGroups = [[Some [''file_md5'' \<mapsto> AString ''abc'']]],
              GetDistancesGroups = [[0]]\<rparr>"
    by (simp add: store1_def echo_engine_def row1_def)
  show ?thesis
    by (simp add: h e flatten_def index_def)
qed

text \<open>
  C8, amended. Under the hypotheses of C7, the metadata map of the \<open>i\<close>-th result is made of
  the id, the document and the distance of the \<open>i\<close>-th entry when the response has a
  metadata record at index \<open>i\<close>, and is empty otherwise.
\<close>

theorem Search_result_metadata:
  assumes "faults st = []" and "collections st c = Some rows"
    and "engine st c rows (build_query (queryOptions q k fm)) = results"
    and "GetDocumentsGroups results = docs # dgs" and "docs \<noteq> []"
    and "GetIDGroups results = ids # igs" and "GetMetadatasGroups results = ms # mgs"
    and "GetDistancesGroups results = ds # dsgs"
    and "length ids = length docs" and "length ds = length docs"
  shows "\<exists>rs. Search c q k fm st = (Inr rs, st) \<and> length rs = length docs
           \<and> (\<forall>i < length docs.
                 Metadata (rs ! i) =
                   (if i < length ms \<and> ms ! i \<noteq> None
                    then [(''id'', VString (ids ! i)), (''document'', VDocument (docs ! i)),
                          (''distance'', VDistance (ds ! i))]
                    else []))"
proof -
  let ?rs = "map (\<lambda>(j, doc). resultAt ids ms ds j doc) (enumerate 0 docs)"
  have f: "flatten results = Inr ?rs"
    using assms by (intro flatten_parallel) simp_all
  have 1: "Search c q k fm st = (Inr ?rs, st)"
    using assms(1,2,3) f by (simp add: Search_healthy)
  have 3: "\<forall>i < length docs. Metadata (?rs ! i) =
                   (if i < length ms \<and> ms ! i \<noteq> None
                    then [(''id'', VString (ids ! i)), (''document'', VDocument (docs ! i)),
                          (''distance'', VDistance (ds ! i))]
                    else [])"
    by (simp add: resultAt_def nth_enumerate_eq)
  from 1 3 show ?thesis
    by (intro exI [of _ ?rs]) simp
qed


theorem Search_result_metadata_witness:
  "\<exists>rs. Search ''docs'' ''q'' 5 [] store1 = (Inr rs, store1) \<and> length rs = length [''hello'']
     \<and> (\<forall>i < length [''hello''].
           Metadata (rs ! i) =
             (if i < length [Some [''file_md5'' \<mapsto> AString ''abc'']]
                   \<and> [Some [''file_md5'' \<mapsto> AString ''abc'']] ! i \<noteq> None
              then [(''id'', VString ([''doc-1''] ! i)), (''document'', VDocument ([''hello''] ! i)),
                    (''distance'', VDistance ([0] ! i))]
              else []))"
proof -
  have e: "engine store1 ''docs'' [row1] (build_query (queryOptions ''q'' 5 []))
           = \<lparr>GetDocumentsGroups = [[''hello'']], GetIDGroups = [[''doc-1'']],
              GetMetadatasGroups = [[Some [''file_md5'' \<mapsto> AString ''abc'']]],
              GetDistancesGroups = [[0]]\<rparr>"
    by (simp add: store1_def echo_engine_def row1_def)
  show ?thesis
    by (rule Search_result_metadata [OF _ _ e]) (simp_all add: store1_def)
qed

section \<open>Direct insert\<close>

text \<open>
  C9. \<open>CreateDocDirect\<close> is called with a text and an id, no store call fails, and the
  collection holds a row with that id: the call fails with the conflict error and the store
  is unchanged.
\<close>

theorem CreateDocDirect_conflict:
  assumes "text \<noteq> []" and "id0 \<noteq> []" and "faults st = []"
    and "collections st collectionName = Some rows" and "id0 \<in> row_id ` set rows"
  shows "CreateDocDirect e collectionName id0 text metadata st
           = (Inl (Errorf ''conflict: id already exists''), st)"
proof -
  have g: "GetOrCreateCollection collectionName st = (Inr collectionName, st)"
    using assms by (simp add: GetOrCreateCollection_def next_fault_Nil)
  have "filter (selects (WithIDsGet [id0])) rows \<noteq> []"
    using assms(5) by (auto simp: filter_empty_conv)
  then have "\<exists>got. collection_Get collectionName (WithIDsGet [id0]) st = (Inr got, st) \<and> length (GetIDs got) > 0"
    using assms by (simp add: collection_Get_def next_fault_Nil Let_def)
  then show ?thesis
    using assms(1,2) g by (auto simp: CreateDocDirect_def)
qed


theorem CreateDocDirect_conflict_witness:
  "''hello'' \<noteq> [] \<and> ''doc-1'' \<noteq> [] \<and> faults store1 = []
   \<and> collections store1 ''docs'' = Some [row1] \<and> ''doc-1'' \<in> row_id ` set [row1]
   \<and> CreateDocDirect env0 ''docs'' ''doc-1'' ''hello'' [] store1
       = (Inl (Errorf ''conflict: id already exists''), store1)"
proof -
  have 1: "faults store1 = []" and 2: "collections store1 ''docs'' = Some [row1]"
    and 3: "''doc-1'' \<in> row_id ` set [row1]"
    by (simp_all add: store1_def row1_def)
  have "CreateDocDirect env0 ''docs'' ''doc-1'' ''hello'' [] store1
          = (Inl (Errorf ''conflict: id already exists''), store1)"
    by (rule CreateDocDirect_conflict [OF _ _ 1 2 3]) simp_all
  with 1 2 3 show ?thesis by blast
qed
section \<open>Stored metadata\<close>

lemma ingestAttribute_key: "ingestAttribute k v = Some (k', a) \<Longrightarrow> k' = k"
  by (cases v) auto

lemma fold_attributes_lookup:
  "distinct (map fst m) \<Longrightarrow>
     fold (\<lambda>(k, a) m. m(k \<mapsto> a)) (List.map_filter (\<lambda>(k, v). ingestAttribute k v) m) m0 k
       = (case map_of m k of
            None \<Rightarrow> m0 k
          | Some v \<Rightarrow> (case ingestAttribute k v of None \<Rightarrow> m0 k | Some (k', a) \<Rightarrow> Some a))"
proof (induction m arbitrary: m0)
  case Nil
  show ?case by simp
next
  case (Cons kv m)
  obtain k1 v1 where kv: "kv = (k1, v1)" by (cases kv)
  from Cons.prems kv have d: "distinct (map fst m)" and n: "map_of m k1 = None"
    by (auto simp: map_of_eq_None_iff)
  show ?case
  proof (cases "ingestAttribute k1 v1")
    case None
    then show ?thesis
      using Cons.IH [OF d, of m0] kv n by simp
  next
    case (Some ka)
    then obtain a where ka: "ka = (k1, a)"
      using ingestAttribute_key [of k1 v1] by (cases ka) auto
    show ?thesis
      using Cons.IH [OF d, of "m0(k1 \<mapsto> a)"] kv n Some ka
      by (auto split: option.splits)
  qed
qed

lemma chromaMetadata_lookup:
  "distinct (map fst m) \<Longrightarrow>
     chromaMetadata m k
       = (case map_of m k of
            None \<Rightarrow> None
          | Some v \<Rightarrow> (case ingestAttribute k v of None \<Rightarrow> None | Some (k', a) \<Rightarrow> Some a))"
  by (simp add: chromaMetadata_def NewDocumentMetadata_def fold_attributes_lookup)

lemma user_fold_distinct:
  "distinct (map fst base) \<Longrightarrow>
     distinct (map fst (fold (\<lambda>(key, value) metadata.
                                AList.update (''user_'' @ key) value metadata) um base))"
  by (induction um arbitrary: base) (auto simp: AList.distinct_update)

lemma user_fold_lookup:
  "\<forall>key. k \<noteq> ''user_'' @ key \<Longrightarrow>
     map_of (fold (\<lambda>(key, value) metadata.
                     AList.update (''user_'' @ key) value metadata) um base) k
       = map_of base k"
  by (induction um arbitrary: base) (auto simp: AList.update_conv')

lemma chunkMetadata_distinct: "distinct (map fst (chunkMetadata e h f um i))"
  unfolding chunkMetadata_def by (rule user_fold_distinct) simp

lemma chunkMetadata_system:
  "map_of (chunkMetadata e h f um i) ''file_md5'' = Some (VString h)"
  "map_of (chunkMetadata e h f um i) ''file_name'' = Some (VString f)"
  "map_of (chunkMetadata e h f um i) ''timestamp'' = Some (VInt64 (unix_now e i))"
  "map_of (chunkMetadata e h f um i) ''chunk_index'' = Some (VInt (int i))"
proof -
  have u: "\<forall>key. ''file_md5'' \<noteq> ''user_'' @ key" "\<forall>key. ''file_name'' \<noteq> ''user_'' @ key"
    "\<forall>key. ''timestamp'' \<noteq> ''user_'' @ key" "\<forall>key. ''chunk_index'' \<noteq> ''user_'' @ key"
    by simp_all
  show "map_of (chunkMetadata e h f um i) ''file_md5'' = Some (VString h)"
    unfolding chunkMetadata_def user_fold_lookup [OF u(1)] by simp
  show "map_of (chunkMetadata e h f um i) ''file_name'' = Some (VString f)"
    unfolding chunkMetadata_def user_fold_lookup [OF u(2)] by simp
  show "map_of (chunkMetadata e h f um i) ''timestamp'' = Some (VInt64 (unix_now e i))"
    unfolding chunkMetadata_def user_fold_lookup [OF u(3)] by simp
  show "map_of (chunkMetadata e h f um i) ''chunk_index'' = Some (VInt (int i))"
    unfolding chunkMetadata_def user_fold_lookup [OF u(4)] by simp
qed

lemma stored_system_keys:
  "chromaMetadata (chunkMetadata e h f um i) ''file_md5'' = Some (AString h)"
  "chromaMetadata (chunkMetadata e h f um i) ''file_name'' = Some (AString f)"
  "chromaMetadata (chunkMetadata e h f um i) ''timestamp'' = Some (AInt (unix_now e i))"
  "chromaMetadata (chunkMetadata e h f um i) ''chunk_index'' = None"
  by (simp_all add: chromaMetadata_lookup chunkMetadata_distinct chunkMetadata_system)

lemma mk_rows_chunks:
  "mk_rows (map (\<lambda>(i, chunk). chunkID e f chunk i) (enumerate n cs)) cs
      (map chromaMetadata (map (\<lambda>(i, chunk). chunkMetadata e h f um i) (enumerate n cs)))
     = map (\<lambda>(i, chunk). chunkRow e h f um i chunk) (enumerate n cs)"
  by (induction cs arbitrary: n) (simp_all add: mk_rows_def chunkRow_def)

lemma fold_add_row_subset: "set (fold add_row rs rows) \<subseteq> set rows \<union> set rs"
proof (induction rs arbitrary: rows)
  case Nil
  show ?case by simp
next
  case (Cons a rs)
  have "set (add_row a rows) \<subseteq> set rows \<union> {a}"
    by (auto simp add: add_row_def)
  with Cons [of "add_row a rows"] show ?case by auto
qed

lemma fold_add_row_keeps: "set rows \<subseteq> set (fold add_row rs rows)"
proof (induction rs arbitrary: rows)
  case Nil
  show ?case by simp
next
  case (Cons a rs)
  have "set rows \<subseteq> set (add_row a rows)"
    by (auto simp add: add_row_def)
  with Cons [of "add_row a rows"] show ?case by auto
qed

lemma fold_add_row_adds:
  "r \<in> set rs \<Longrightarrow> row_id r \<notin> row_id ` set rows \<Longrightarrow>
     \<exists>r' \<in> set rs. r' \<in> set (fold add_row rs rows)"
proof (induction rs arbitrary: rows)
  case Nil
  then show ?case by simp
next
  case (Cons a rs)
  show ?case
  proof (cases "row_id a \<in> row_id ` set rows")
    case True
    with Cons.prems have "r \<in> set rs" by auto
    from Cons.IH [OF this Cons.prems(2)] True show ?thesis
      by (auto simp: add_row_def)
  next
    case False
    then have "a \<in> set (add_row a rows)" by (simp add: add_row_def)
    then have "a \<in> set (fold add_row rs (add_row a rows))"
      using fold_add_row_keeps by blast
    then show ?thesis by auto
  qed
qed

lemma GetOrCreateCollection_rows:
  "GetOrCreateCollection c st = (r, st1) \<Longrightarrow> rows_of st1 c' = rows_of st c'"
  by (auto simp: GetOrCreateCollection_def next_fault_def rows_of_def
        split: list.splits option.splits if_splits)

lemma collection_Get_rows:
  "collection_Get c opt st = (r, st1) \<Longrightarrow> rows_of st1 c' = rows_of st c'"
  by (auto simp: collection_Get_def next_fault_def rows_of_def Let_def
        split: list.splits option.splits)

lemma collection_Add_rows:
  assumes "collection_Add c ids texts ms st = (r, st1)"
  shows "set (rows_of st1 c) \<subseteq> set (rows_of st c) \<union> set (mk_rows ids texts ms)"
proof (cases "collections st c")
  case None
  then show ?thesis
    using assms
    by (auto simp: collection_Add_def next_fault_def rows_of_def split: list.splits option.splits)
next
  case (Some rows)
  have "rows_of st1 c = rows \<or> rows_of st1 c = fold add_row (mk_rows ids texts ms) rows"
    using Some assms
    by (auto simp: collection_Add_def next_fault_def rows_of_def split: list.splits option.splits)
  moreover have "rows_of st c = rows"
    using Some by (simp add: rows_of_def)
  ultimately show ?thesis
    using fold_add_row_subset [of "mk_rows ids texts ms" rows] by auto
qed

lemma IngestFile_rows_subset:
  assumes "IngestFile e c f content um st = (res, st')"
  shows "set (rows_of st' c) \<subseteq> set (rows_of st c) \<union> set (ingestRows e f content um)"
proof -
  obtain r1 st1 where 1: "GetOrCreateCollection c st = (r1, st1)"
    by (cases "GetOrCreateCollection c st")
  note g1 = GetOrCreateCollection_rows [OF 1]
  show ?thesis
  proof (cases r1)
    case (Inl err)
    with assms 1 g1 show ?thesis by (auto simp: IngestFile_def)
  next
    case (Inr collection)
    then have cc: "collection = c"
      using 1 by (auto simp: GetOrCreateCollection_def split: prod.splits option.splits)
    obtain r2 st2 where 2:
      "collection_Get c (WithWhereGet (EqString ''file_md5'' (md5_hex e content))) st1 = (r2, st2)"
      by (cases "collection_Get c (WithWhereGet (EqString ''file_md5'' (md5_hex e content))) st1")
    note g2 = collection_Get_rows [OF 2]
    show ?thesis
    proof (cases r2)
      case (Inl err)
      with assms 1 2 g1 g2 Inr cc show ?thesis by (auto simp: IngestFile_def)
    next
      case got: (Inr results)
      show ?thesis
      proof (cases "length (GetDocuments results) > 0")
        case True
        with assms 1 2 g1 g2 Inr cc got show ?thesis by (auto simp: IngestFile_def)
      next
        case False
        let ?ids = "map (\<lambda>(i, chunk). chunkID e f chunk i) (enumerate 0 (chunkText content 512))"
        let ?ms = "map chromaMetadata (map (\<lambda>(i, chunk). chunkMetadata e (md5_hex e content) f um i)
                       (enumerate 0 (chunkText content 512)))"
        obtain r3 st3 where 3:
          "collection_Add c ?ids (chunkText content 512) ?ms st2 = (r3, st3)"
          by (cases "collection_Add c ?ids (chunkText content 512) ?ms st2")
        have rows: "mk_rows ?ids (chunkText content 512) ?ms = ingestRows e f content um"
          unfolding ingestRows_def by (rule mk_rows_chunks)
        have sub: "set (rows_of st3 c) \<subseteq> set (rows_of st c) \<union> set (ingestRows e f content um)"
          using collection_Add_rows [OF 3] g1 g2 rows by simp
        have "st' = st3"
          using assms 1 2 Inr cc got False 3
          by (auto simp: IngestFile_def Let_def split: sum.splits)
        with sub show ?thesis by simp
      qed
    qed
  qed
qed

lemma ingestRows_nth:
  assumes "r \<in> set (ingestRows e f content um)"
  shows "\<exists>i < length (chunkText content 512).
           r = chunkRow e (md5_hex e content) f um i (chunkText content 512 ! i)"
proof -
  from assms obtain p where p: "p \<in> set (enumerate 0 (chunkText content 512))"
      and r: "r = (case p of (i, chunk) \<Rightarrow> chunkRow e (md5_hex e content) f um i chunk)"
    by (auto simp: ingestRows_def)
  obtain i chunk where ic: "p = (i, chunk)" by (cases p)
  with p have "i < length (chunkText content 512)" "chunk = chunkText content 512 ! i"
    by (auto simp: in_set_enumerate_eq)
  with r ic show ?thesis by auto
qed

lemma ingestRows_metadata:
  assumes "r \<in> set (ingestRows e f content um)"
  shows "row_metadata r ''file_md5'' = Some (AString (md5_hex e content))
       \<and> row_metadata r ''file_name'' = Some (AString f)
       \<and> (\<exists>i < length (chunkText content 512).
             row_metadata r ''timestamp'' = Some (AInt (unix_now e i)))"
  using ingestRows_nth [OF assms] by (auto simp: chunkRow_def stored_system_keys)

lemma IngestFile_fresh:
  assumes "faults st = []"
    and "\<forall>r \<in> set (rows_of st c). row_metadata r ''file_md5'' \<noteq> Some (AString (md5_hex e content))"
  shows "IngestFile e c f content um st
           = (Inr \<lparr>Status = ''ingested'', File = f, Chunks = length (chunkText content 512)\<rparr>,
              st\<lparr>collections :=
                   (collections st)(c \<mapsto> fold add_row (ingestRows e f content um) (rows_of st c))\<rparr>)"
proof -
  let ?ids = "map (\<lambda>(i, chunk). chunkID e f chunk i) (enumerate 0 (chunkText content 512))"
  let ?ms = "map chromaMetadata (map (\<lambda>(i, chunk). chunkMetadata e (md5_hex e content) f um i)
                 (enumerate 0 (chunkText content 512)))"
  let ?st1 = "st\<lparr>collections := (collections st)(c \<mapsto> rows_of st c)\<rparr>"
  have 1: "GetOrCreateCollection c st = (Inr c, ?st1)"
    using assms(1)
    by (auto simp: GetOrCreateCollection_def next_fault_Nil rows_of_def map_upd_triv
          split: option.splits)
  have f1: "faults ?st1 = []" using assms(1) by simp
  have nohit: "filter (selects (WithWhereGet (EqString ''file_md5'' (md5_hex e content))))
                 (rows_of st c) = []"
    using assms(2) by (auto simp: filter_empty_conv)
  have 2: "collection_Get c (WithWhereGet (EqString ''file_md5'' (md5_hex e content))) ?st1
             = (Inr \<lparr>GetIDs = [], GetDocuments = [], GetMetadatas = []\<rparr>, ?st1)"
    using nohit by (simp add: collection_Get_def next_fault_Nil [OF f1] Let_def)
  have rows: "mk_rows ?ids (chunkText content 512) ?ms = ingestRows e f content um"
    unfolding ingestRows_def by (rule mk_rows_chunks)
  have 3: "collection_Add c ?ids (chunkText content 512) ?ms ?st1
             = (Inr (), st\<lparr>collections :=
                   (collections st)(c \<mapsto> fold add_row (ingestRows e f content um) (rows_of st c))\<rparr>)"
    by (simp add: collection_Add_def next_fault_Nil [OF f1] rows del: map_map)
  show ?thesis
    unfolding IngestFile_def 1 by (simp add: 2 Let_def 3 del: map_map)
qed

lemma IngestFile_duplicate:
  assumes "faults st = []" and "collections st c = Some rows"
    and "r \<in> set rows" and "row_metadata r ''file_md5'' = Some (AString (md5_hex e content))"
  shows "IngestFile e c f content um st
           = (Inr \<lparr>Status = ''skipped'', File = f, Chunks = 0\<rparr>, st)"
proof -
  have 1: "GetOrCreateCollection c st = (Inr c, st)"
    using assms(1,2) by (simp add: GetOrCreateCollection_def next_fault_Nil)
  have "filter (selects (WithWhereGet (EqString ''file_md5'' (md5_hex e content)))) rows \<noteq> []"
    using assms(3,4) by (auto simp: filter_empty_conv)
  then have "\<exists>got. collection_Get c (WithWhereGet (EqString ''file_md5'' (md5_hex e content))) st
                     = (Inr got, st) \<and> length (GetDocuments got) > 0"
    using assms(1,2) by (simp add: collection_Get_def next_fault_Nil Let_def)
  then show ?thesis
    unfolding IngestFile_def 1 by auto
qed

lemma ingestRows_chunk:
  assumes "r \<in> set (ingestRows e f content um)"
  shows "row_metadata r ''file_md5'' = Some (AString (md5_hex e content))
       \<and> row_metadata r ''file_name'' = Some (AString f)
       \<and> (\<exists>i < length (chunkText content 512).
             row_id r = chunkID e f (chunkText content 512 ! i) i
             \<and> row_document r = chunkText content 512 ! i
             \<and> row_metadata r ''timestamp'' = Some (AInt (unix_now e i)))"
  using ingestRows_nth [OF assms] by (auto simp: chunkRow_def stored_system_keys)

lemma rows_of_member: "r \<in> set (rows_of st c) \<Longrightarrow> collections st c = Some (rows_of st c)"
  by (cases "collections st c") (simp_all add: rows_of_def)

lemma fold_add_row_ignored:
  "row_id ` set rs \<subseteq> row_id ` set rows \<Longrightarrow> fold add_row rs rows = rows"
  by (induction rs) (simp_all add: add_row_def)

lemma IngestFile_all_ids_present:
  assumes "faults st = []"
    and "\<forall>r \<in> set (rows_of st c). row_metadata r ''file_md5'' \<noteq> Some (AString (md5_hex e content))"
    and "\<forall>i < length (chunkText content 512).
           chunkID e f (chunkText content 512 ! i) i \<in> row_id ` set (rows_of st c)"
  shows "IngestFile e c f content um st
           = (Inr \<lparr>Status = ''ingested'', File = f, Chunks = length (chunkText content 512)\<rparr>, st)"
proof -
  have "row_id ` set (ingestRows e f content um) \<subseteq> row_id ` set (rows_of st c)"
  proof
    fix x assume "x \<in> row_id ` set (ingestRows e f content um)"
    then obtain r where r: "r \<in> set (ingestRows e f content um)" and x: "x = row_id r" by blast
    from ingestRows_nth [OF r] obtain i where i: "i < length (chunkText content 512)"
        and ri: "r = chunkRow e (md5_hex e content) f um i (chunkText content 512 ! i)"
      by blast
    have "row_id r = chunkID e f (chunkText content 512 ! i) i"
      by (simp add: ri chunkRow_def)
    with assms(3) i x show "x \<in> row_id ` set (rows_of st c)" by simp
  qed
  then have same: "fold add_row (ingestRows e f content um) (rows_of st c) = rows_of st c"
    by (rule fold_add_row_ignored)
  have "0 < length (chunkText content 512)"
    using chunkText_nonempty [of content 512] by simp
  with assms(3) have "chunkID e f (chunkText content 512 ! 0) 0 \<in> row_id ` set (rows_of st c)"
    by blast
  then obtain r0 where "r0 \<in> set (rows_of st c)" by blast
  then have "collections st c = Some (rows_of st c)" by (rule rows_of_member)
  then have "st\<lparr>collections := (collections st)(c \<mapsto> rows_of st c)\<rparr> = st"
    by (simp add: map_upd_triv)
  with IngestFile_fresh [OF assms(1,2), of f um] same show ?thesis by simp
qed


subsection \<open>Evaluation on the concrete inputs\<close>

lemma chunkText_hello: "chunkText ''hello'' 512 = [''hello'' @ [newline]]"
  by (simp add: chunkText_def lenFields_def newline_def asciiSpace_def)

lemma Split_no_newline: "newline \<notin> set xs \<Longrightarrow> Split xs = [xs]"
  by (induction xs) auto

lemma Split_append_newline: "newline \<notin> set xs \<Longrightarrow> Split (xs @ newline # ys) = xs # Split ys"
  by (induction xs) auto

lemma countFields_words:
  "countFields 0 False (concat (replicate n ''a '') @ rest) = n + countFields 0 False rest"
  by (induction n) (simp_all add: asciiSpace_def)

lemma line512_tokens: "lenFields line512 = 512"
  using countFields_words [of 512 "[]"] by (simp add: lenFields_def line512_def)

lemma line512_no_newline: "newline \<notin> set line512"
  by (auto simp: line512_def newline_def)

lemma line512_head: "\<exists>t. line512 = CHR ''a'' # t"
proof -
  have "(512::nat) = Suc 511" by simp
  then show ?thesis unfolding line512_def by (simp only: replicate_Suc concat.simps) simp
qed

lemma chunkText_two_lines:
  "chunkText two_lines 512 = [line512 @ [newline], ''b'' @ [newline]]"
proof -
  have "Split ''b'' = [''b'']"
    by (rule Split_no_newline) (simp add: newline_def)
  then have "Split two_lines = [line512, ''b'']"
    using Split_append_newline [OF line512_no_newline, of "''b''"] by (simp add: two_lines_def)
  moreover have "lenFields ''b'' = 1"
    by (simp add: lenFields_def asciiSpace_def)
  ultimately show ?thesis
    by (simp add: chunkText_def line512_tokens)
qed

lemma rows_of_update:
  "rows_of (st\<lparr>collections := (collections st)(c \<mapsto> rows)\<rparr>) c = rows"
  by (simp add: rows_of_def)

lemma store0_fresh:
  "faults store0 = []" "rows_of store0 c = []"
  by (simp_all add: store0_def rows_of_def)

lemma env0_simps:
  "md5_hex env0 s = ''md5:'' @ s" "sha256_hex8 env0 s = ''sha256:'' @ s"
  "unix_now env0 i = 1700000000 + int i"
  by (simp_all add: env0_def)

lemma IngestFile_store0:
  "snd (IngestFile e ''docs'' f content um store0)
     = store0\<lparr>collections := (collections store0)(''docs'' \<mapsto>
                 fold add_row (ingestRows e f content um) [])\<rparr>"
  using IngestFile_fresh [of store0 "''docs''" e content f um] by (simp add: store0_fresh)

lemma rows_hello:
  "rows_of (snd (IngestFile env0 ''docs'' ''a.txt'' ''hello'' [] store0)) ''docs''
     = [chunkRow env0 ''md5:hello'' ''a.txt'' [] 0 (''hello'' @ [newline])]"
  by (simp add: IngestFile_store0 rows_of_update ingestRows_def chunkText_hello add_row_def
        env0_simps)

lemma line512_not_b: "line512 @ x \<noteq> CHR ''b'' # y"
proof -
  obtain t where t: "line512 = CHR ''a'' # t"
    using line512_head by blast
  show ?thesis
  proof
    assume "line512 @ x = CHR ''b'' # y"
    then have "CHR ''a'' # (t @ x) = CHR ''b'' # y"
      unfolding t by simp
    then have "CHR ''a'' = CHR ''b''"
      by (simp only: list.inject)
    then show False by simp
  qed
qed

lemma rows_two_lines:
  "rows_of (snd (IngestFile env0 ''docs'' ''a.txt'' two_lines [] store0)) ''docs''
     = [chunkRow env0 (md5_hex env0 two_lines) ''a.txt'' [] 0 (line512 @ [newline]),
        chunkRow env0 (md5_hex env0 two_lines) ''a.txt'' [] 1 (''b'' @ [newline])]"
proof -
  have "chunkID env0 ''a.txt'' (CHR ''b'' # [newline]) (Suc 0)
          \<noteq> chunkID env0 ''a.txt'' (line512 @ [newline]) 0"
    using line512_not_b [of "[newline] @ Sprintf_d 0" "[newline] @ Sprintf_d (Suc 0)"]
    by (simp add: chunkID_def env0_simps)
  then show ?thesis
    by (simp add: IngestFile_store0 rows_of_update ingestRows_def chunkText_two_lines add_row_def
          chunkRow_def)
qed

lemma chunkText_line512: "chunkText line512 512 = [line512 @ [newline]]"
  using Split_no_newline [OF line512_no_newline]
  by (simp add: chunkText_def line512_tokens)

lemma two_lines_not_line512: "md5_hex env0 two_lines \<noteq> md5_hex env0 line512"
  by (simp add: env0_simps two_lines_def)

lemma fold_add_row_two:
  "\<exists>r1. fold add_row (ingestRows env0 ''a.txt'' two_lines []) []
     = [chunkRow env0 (md5_hex env0 two_lines) ''a.txt'' [] 0 (line512 @ [newline]), r1]
     \<and> row_metadata r1 ''file_md5'' = Some (AString (md5_hex env0 two_lines))"
proof -
  have "chunkID env0 ''a.txt'' (CHR ''b'' # [newline]) (Suc 0)
          \<noteq> chunkID env0 ''a.txt'' (line512 @ [newline]) 0"
    using line512_not_b [of "[newline] @ Sprintf_d 0" "[newline] @ Sprintf_d (Suc 0)"]
    by (simp add: chunkID_def env0_simps)
  then show ?thesis
    by (simp add: ingestRows_def chunkText_two_lines add_row_def chunkRow_def stored_system_keys)
qed

lemma store2_rows:
  "\<exists>r1. collections store2 ''docs''
            = Some [chunkRow env0 (md5_hex env0 two_lines) ''a.txt'' [] 0 (line512 @ [newline]), r1]
        \<and> row_metadata r1 ''file_md5'' = Some (AString (md5_hex env0 two_lines))"
proof -
  obtain r1 where rows: "fold add_row (ingestRows env0 ''a.txt'' two_lines []) []
      = [chunkRow env0 (md5_hex env0 two_lines) ''a.txt'' [] 0 (line512 @ [newline]), r1]"
      and m1: "row_metadata r1 ''file_md5'' = Some (AString (md5_hex env0 two_lines))"
    using fold_add_row_two by blast
  have s2: "store2 = store0\<lparr>collections := (collections store0)(''docs'' \<mapsto>
      [chunkRow env0 (md5_hex env0 two_lines) ''a.txt'' [] 0 (line512 @ [newline]), r1])\<rparr>"
    by (simp add: store2_def IngestFile_store0 rows)
  have "collections store2 ''docs''
      = Some [chunkRow env0 (md5_hex env0 two_lines) ''a.txt'' [] 0 (line512 @ [newline]), r1]"
    by (simp add: s2)
  with m1 show ?thesis by blast
qed

lemma store2_faults: "faults store2 = []"
  by (simp add: store2_def IngestFile_store0 store0_fresh)

lemma store2_md5:
  assumes "r \<in> set (rows_of store2 ''docs'')"
  shows "row_metadata r ''file_md5'' = Some (AString (md5_hex env0 two_lines))"
proof -
  obtain r1 where c: "collections store2 ''docs''
      = Some [chunkRow env0 (md5_hex env0 two_lines) ''a.txt'' [] 0 (line512 @ [newline]), r1]"
      and m1: "row_metadata r1 ''file_md5'' = Some (AString (md5_hex env0 two_lines))"
    using store2_rows by blast
  have m0: "row_metadata (chunkRow env0 (md5_hex env0 two_lines) ''a.txt'' [] 0 (line512 @ [newline]))
             ''file_md5'' = Some (AString (md5_hex env0 two_lines))"
    by (simp add: chunkRow_def stored_system_keys)
  from assms c have "r = chunkRow env0 (md5_hex env0 two_lines) ''a.txt'' [] 0 (line512 @ [newline])
      \<or> r = r1"
    by (simp add: rows_of_def)
  with m0 m1 show ?thesis by blast
qed

lemma store2_no_line512:
  "\<forall>r \<in> set (rows_of store2 ''docs'').
     row_metadata r ''file_md5'' \<noteq> Some (AString (md5_hex env0 line512))"
  using store2_md5 two_lines_not_line512 by auto

lemma store2_has_id:
  "chunkID env0 ''a.txt'' (line512 @ [newline]) 0 \<in> row_id ` set (rows_of store2 ''docs'')"
proof -
  obtain r1 where c: "collections store2 ''docs''
      = Some [chunkRow env0 (md5_hex env0 two_lines) ''a.txt'' [] 0 (line512 @ [newline]), r1]"
    using store2_rows by blast
  have "row_id (chunkRow env0 (md5_hex env0 two_lines) ''a.txt'' [] 0 (line512 @ [newline]))
          = chunkID env0 ''a.txt'' (line512 @ [newline]) 0"
    by (simp add: chunkRow_def)
  moreover have "chunkRow env0 (md5_hex env0 two_lines) ''a.txt'' [] 0 (line512 @ [newline])
          \<in> set (rows_of store2 ''docs'')"
    using c by (simp add: rows_of_def)
  ultimately show ?thesis by force
qed

lemma store2_skips:
  "IngestFile env0 ''docs'' ''b.txt'' two_lines [] store2
     = (Inr \<lparr>Status = ''skipped'', File = ''b.txt'', Chunks = 0\<rparr>, store2)"
proof -
  obtain r1 where c: "collections store2 ''docs''
      = Some [chunkRow env0 (md5_hex env0 two_lines) ''a.txt'' [] 0 (line512 @ [newline]), r1]"
    using store2_rows by blast
  have m: "row_metadata (chunkRow env0 (md5_hex env0 two_lines) ''a.txt'' [] 0 (line512 @ [newline]))
             ''file_md5'' = Some (AString (md5_hex env0 two_lines))"
    by (simp add: chunkRow_def stored_system_keys)
  show ?thesis
    by (rule IngestFile_duplicate [OF store2_faults c _ m]) simp
qed


section \<open>Idempotent ingestion\<close>

text \<open>
  C1. The claim is that ingesting the same bytes twice returns \<open>ingested\<close>, then
  \<open>skipped\<close>. The dedupe lookup finds a content by the \<open>file_md5\<close> of a stored row, the
  id of a chunk is made from the file path, the chunk and its index, and the store ignores a
  row whose id it already holds. After the two-line text was ingested as \<open>a.txt\<close>, its
  first line alone has, under the same name, one chunk, and the id of that chunk is already
  stored: no store call fails, the collection holds no row with the \<open>file_md5\<close> of the
  line, the first call returns \<open>ingested\<close> and stores nothing, and the second call with
  the same bytes returns \<open>ingested\<close> again.
\<close>

theorem IngestFile_idempotent_counterexample:
  "faults store2 = []
   \<and> filter (\<lambda>r. row_metadata r ''file_md5'' = Some (AString (md5_hex env0 line512)))
       (rows_of store2 ''docs'') = []
   \<and> IngestFile env0 ''docs'' ''a.txt'' line512 [] store2
       = (Inr \<lparr>Status = ''ingested'', File = ''a.txt'', Chunks = 1\<rparr>, store2)
   \<and> IngestFile env0 ''docs'' ''a.txt'' line512 []
         (snd (IngestFile env0 ''docs'' ''a.txt'' line512 [] store2))
       = (Inr \<lparr>Status = ''ingested'', File = ''a.txt'', Chunks = 1\<rparr>, store2)"
proof -
  have all: "\<forall>i < length (chunkText line512 512).
      chunkID env0 ''a.txt'' (chunkText line512 512 ! i) i \<in> row_id ` set (rows_of store2 ''docs'')"
    by (simp add: chunkText_line512 store2_has_id)
  have run: "IngestFile env0 ''docs'' ''a.txt'' line512 [] store2
       = (Inr \<lparr>Status = ''ingested'', File = ''a.txt'', Chunks = 1\<rparr>, store2)"
    using IngestFile_all_ids_present [OF store2_faults store2_no_line512 all, of "[]"]
    by (simp add: chunkText_line512)
  have "filter (\<lambda>r. row_metadata r ''file_md5'' = Some (AString (md5_hex env0 line512)))
       (rows_of store2 ''docs'') = []"
    using store2_no_line512 by (simp add: filter_empty_conv)
  with store2_faults run show ?thesis by simp
qed


text \<open>
  C1, amended. No store call fails and the collection holds no row with the \<open>file_md5\<close>
  of the content. Then \<open>IngestFile\<close> returns \<open>ingested\<close>. When the id of at least one
  chunk is not yet in the collection, a second call with the same bytes (under any file name,
  user metadata and clock) returns \<open>skipped\<close> and leaves the store as the first call left
  it. When the id of every chunk is already in the collection, the first call leaves the
  store as it was, and the same call made again returns \<open>ingested\<close> again.
\<close>

theorem IngestFile_idempotent:
  assumes "faults st = []"
    and "\<forall>r \<in> set (rows_of st c). row_metadata r ''file_md5'' \<noteq> Some (AString (md5_hex e content))"
    and "md5_hex e' = md5_hex e"
  shows "\<exists>st1. IngestFile e c f content um st
                 = (Inr \<lparr>Status = ''ingested'', File = f,
                         Chunks = length (chunkText content 512)\<rparr>, st1)
              \<and> ((\<exists>i < length (chunkText content 512).
                     chunkID e f (chunkText content 512 ! i) i \<notin> row_id ` set (rows_of st c)) \<longrightarrow>
                   IngestFile e' c f' content um' st1
                     = (Inr \<lparr>Status = ''skipped'', File = f', Chunks = 0\<rparr>, st1))
              \<and> ((\<forall>i < length (chunkText content 512).
                     chunkID e f (chunkText content 512 ! i) i \<in> row_id ` set (rows_of st c)) \<longrightarrow>
                   st1 = st
                   \<and> IngestFile e c f content um st1
                       = (Inr \<lparr>Status = ''ingested'', File = f,
                               Chunks = length (chunkText content 512)\<rparr>, st1))"
proof -
  let ?rows = "fold add_row (ingestRows e f content um) (rows_of st c)"
  let ?st1 = "st\<lparr>collections := (collections st)(c \<mapsto> ?rows)\<rparr>"
  have first: "IngestFile e c f content um st
                 = (Inr \<lparr>Status = ''ingested'', File = f,
                         Chunks = length (chunkText content 512)\<rparr>, ?st1)"
    by (rule IngestFile_fresh [OF assms(1,2)])
  have second: "IngestFile e' c f' content um' ?st1
                  = (Inr \<lparr>Status = ''skipped'', File = f', Chunks = 0\<rparr>, ?st1)"
    if "\<exists>i < length (chunkText content 512).
          chunkID e f (chunkText content 512 ! i) i \<notin> row_id ` set (rows_of st c)"
  proof -
    from that obtain i where i: "i < length (chunkText content 512)"
        and fresh: "chunkID e f (chunkText content 512 ! i) i \<notin> row_id ` set (rows_of st c)"
      by blast
    let ?r = "chunkRow e (md5_hex e content) f um i (chunkText content 512 ! i)"
    have "(i, chunkText content 512 ! i) \<in> set (enumerate 0 (chunkText content 512))"
      using i by (simp add: in_set_enumerate_eq)
    then have "?r \<in> set (ingestRows e f content um)"
      unfolding ingestRows_def by force
    moreover have "row_id ?r \<notin> row_id ` set (rows_of st c)"
      using fresh by (simp add: chunkRow_def)
    ultimately obtain r' where r': "r' \<in> set (ingestRows e f content um)" "r' \<in> set ?rows"
      using fold_add_row_adds by blast
    have md5: "row_metadata r' ''file_md5'' = Some (AString (md5_hex e' content))"
      using ingestRows_metadata [OF r'(1)] assms(3) by simp
    show ?thesis
      by (rule IngestFile_duplicate [OF _ _ r'(2) md5]) (simp_all add: assms(1))
  qed
  have again: "?st1 = st \<and> IngestFile e c f content um ?st1
                  = (Inr \<lparr>Status = ''ingested'', File = f,
                          Chunks = length (chunkText content 512)\<rparr>, ?st1)"
    if all: "\<forall>i < length (chunkText content 512).
          chunkID e f (chunkText content 512 ! i) i \<in> row_id ` set (rows_of st c)"
  proof -
    from first IngestFile_all_ids_present [OF assms(1,2) all, of um]
    have eq: "?st1 = st" by simp
    show ?thesis
      unfolding eq using IngestFile_all_ids_present [OF assms(1,2) all, of um] by simp
  qed
  from first second again show ?thesis by blast
qed

theorem IngestFile_idempotent_witness:
  "faults store0 = []
   \<and> rows_of store0 ''docs'' = []
   \<and> (\<exists>i < length (chunkText ''hello'' 512).
         chunkID env0 ''a.txt'' (chunkText ''hello'' 512 ! i) i \<notin> row_id ` set (rows_of store0 ''docs''))
   \<and> (\<exists>st1. IngestFile env0 ''docs'' ''a.txt'' ''hello'' [] store0
               = (Inr \<lparr>Status = ''ingested'', File = ''a.txt'',
                       Chunks = length (chunkText ''hello'' 512)\<rparr>, st1)
            \<and> IngestFile env0 ''docs'' ''b.txt'' ''hello'' [(''k'', VString ''v'')] st1
               = (Inr \<lparr>Status = ''skipped'', File = ''b.txt'', Chunks = 0\<rparr>, st1))
   \<and> faults store2 = []
   \<and> filter (\<lambda>r. row_metadata r ''file_md5'' = Some (AString (md5_hex env0 line512)))
       (rows_of store2 ''docs'') = []
   \<and> chunkText line512 512 = [line512 @ [newline]]
   \<and> chunkID env0 ''a.txt'' (line512 @ [newline]) 0 \<in> row_id ` set (rows_of store2 ''docs'')
   \<and> IngestFile env0 ''docs'' ''a.txt'' line512 [] store2
       = (Inr \<lparr>Status = ''ingested'', File = ''a.txt'', Chunks = 1\<rparr>, store2)"
proof -
  have 1: "faults store0 = []" by (simp add: store0_fresh)
  have 0: "rows_of store0 ''docs'' = []" by (simp add: store0_fresh)
  have 2: "\<forall>r \<in> set (rows_of store0 ''docs'').
             row_metadata r ''file_md5'' \<noteq> Some (AString (md5_hex env0 ''hello''))"
    by (simp add: store0_fresh)
  have 3: "\<exists>i < length (chunkText ''hello'' 512).
         chunkID env0 ''a.txt'' (chunkText ''hello'' 512 ! i) i \<notin> row_id ` set (rows_of store0 ''docs'')"
    by (simp add: store0_fresh chunkText_hello)
  have a: "\<exists>st1. IngestFile env0 ''docs'' ''a.txt'' ''hello'' [] store0
               = (Inr \<lparr>Status = ''ingested'', File = ''a.txt'',
                       Chunks = length (chunkText ''hello'' 512)\<rparr>, st1)
            \<and> IngestFile env0 ''docs'' ''b.txt'' ''hello'' [(''k'', VString ''v'')] st1
               = (Inr \<lparr>Status = ''skipped'', File = ''b.txt'', Chunks = 0\<rparr>, st1)"
    using IngestFile_idempotent [OF 1 2 refl, where f = "''a.txt''" and um = "[]"
            and f' = "''b.txt''" and um' = "[(''k'', VString ''v'')]"] 3
    by blast
  have 4: "filter (\<lambda>r. row_metadata r ''file_md5'' = Some (AString (md5_hex env0 line512)))
       (rows_of store2 ''docs'') = []"
    using store2_no_line512 by (simp add: filter_empty_conv)
  have 5: "\<forall>i < length (chunkText line512 512).
      chunkID env0 ''a.txt'' (chunkText line512 512 ! i) i \<in> row_id ` set (rows_of store2 ''docs'')"
    by (simp add: chunkText_line512 store2_has_id)
  have b: "IngestFile env0 ''docs'' ''a.txt'' line512 [] store2
       = (Inr \<lparr>Status = ''ingested'', File = ''a.txt'', Chunks = 1\<rparr>, store2)"
    using IngestFile_idempotent [OF store2_faults store2_no_line512 refl,
            where f = "''a.txt''" and um = "[]"] 5
    by (auto simp: chunkText_line512)
  from 1 0 3 a store2_faults 4 chunkText_line512 store2_has_id b show ?thesis by blast
qed


section \<open>System keys of the stored metadata\<close>

text \<open>
  C2. The claim is that the stored metadata of every chunk has the keys \<open>file_md5\<close>,
  \<open>file_name\<close>, \<open>timestamp\<close> and \<open>chunk_index\<close>. The map composed for a chunk has all
  four, but \<open>chunk_index\<close> is the loop index, a Go \<open>int\<close>, and the type switch that
  converts the map for the store has no case for \<open>int\<close> (the one of \<open>CreateDocDirect\<close>
  has): the key is dropped, for every chunk of every call. The row stored for the file
  \<open>a.txt\<close> with content \<open>hello\<close> has the three other keys and no \<open>chunk_index\<close>.
\<close>

theorem IngestFile_drops_chunk_index:
  "chromaMetadata (chunkMetadata e md5Hash filePath um i) ''chunk_index'' = None
   \<and> map (\<lambda>r. map (row_metadata r) [''file_md5'', ''file_name'', ''timestamp'', ''chunk_index''])
       (rows_of (snd (IngestFile env0 ''docs'' ''a.txt'' ''hello'' [] store0)) ''docs'')
     = [[Some (AString ''md5:hello''), Some (AString ''a.txt''), Some (AInt 1700000000), None]]"
  by (simp add: rows_hello chunkRow_def stored_system_keys env0_simps)


text \<open>
  C3. The claim is that all chunks of one call carry the same \<open>file_md5\<close>, \<open>file_name\<close>
  and \<open>timestamp\<close>. The loop reads the clock once for every chunk; with a clock that
  advances between the two readings, the two chunks of one call get different timestamps.
\<close>

theorem IngestFile_timestamps_counterexample:
  "map (\<lambda>r. row_metadata r ''timestamp'')
     (rows_of (snd (IngestFile env0 ''docs'' ''a.txt'' two_lines [] store0)) ''docs'')
   = [Some (AInt 1700000000), Some (AInt 1700000001)]"
  by (simp add: rows_two_lines chunkRow_def stored_system_keys env0_simps)


text \<open>
  C3, amended. Every row that a call of \<open>IngestFile\<close> adds to the collection is the row of
  one chunk of the call, the chunk at some index \<open>i\<close>: it has the id and the text of that
  chunk, the \<open>file_md5\<close> of the content and the \<open>file_name\<close> of the call, which all rows
  of the call share, and as \<open>timestamp\<close> the reading that the call took from the clock for
  that chunk, the \<open>i\<close>-th one. The second chunk of the two-line text carries the second
  reading.
\<close>

theorem IngestFile_chunks_share:
  assumes "IngestFile e c f content um st = (res, st')"
    and "r \<in> set (rows_of st' c)" and "r \<notin> set (rows_of st c)"
  shows "row_metadata r ''file_md5'' = Some (AString (md5_hex e content))
       \<and> row_metadata r ''file_name'' = Some (AString f)
       \<and> (\<exists>i < length (chunkText content 512).
             row_id r = chunkID e f (chunkText content 512 ! i) i
             \<and> row_document r = chunkText content 512 ! i
             \<and> row_metadata r ''timestamp'' = Some (AInt (unix_now e i)))"
proof -
  have "r \<in> set (ingestRows e f content um)"
    using IngestFile_rows_subset [OF assms(1)] assms(2,3) by blast
  then show ?thesis by (rule ingestRows_chunk)
qed

theorem IngestFile_chunks_share_witness:
  "chunkRow env0 (md5_hex env0 two_lines) ''a.txt'' [] 1 (''b'' @ [newline])
     \<in> set (rows_of (snd (IngestFile env0 ''docs'' ''a.txt'' two_lines [] store0)) ''docs'')
   \<and> chunkRow env0 (md5_hex env0 two_lines) ''a.txt'' [] 1 (''b'' @ [newline])
       \<notin> set (rows_of store0 ''docs'')
   \<and> row_metadata (chunkRow env0 (md5_hex env0 two_lines) ''a.txt'' [] 1 (''b'' @ [newline]))
         ''file_md5''
       = Some (AString (md5_hex env0 two_lines))
   \<and> row_metadata (chunkRow env0 (md5_hex env0 two_lines) ''a.txt'' [] 1 (''b'' @ [newline]))
         ''file_name''
       = Some (AString ''a.txt'')
   \<and> (\<exists>i < length (chunkText two_lines 512).
         row_id (chunkRow env0 (md5_hex env0 two_lines) ''a.txt'' [] 1 (''b'' @ [newline]))
           = chunkID env0 ''a.txt'' (chunkText two_lines 512 ! i) i
         \<and> row_document (chunkRow env0 (md5_hex env0 two_lines) ''a.txt'' [] 1 (''b'' @ [newline]))
             = chunkText two_lines 512 ! i
         \<and> row_metadata (chunkRow env0 (md5_hex env0 two_lines) ''a.txt'' [] 1 (''b'' @ [newline]))
               ''timestamp''
             = Some (AInt (unix_now env0 i)))
   \<and> row_metadata (chunkRow env0 (md5_hex env0 two_lines) ''a.txt'' [] 1 (''b'' @ [newline]))
         ''timestamp''
       = Some (AInt 1700000001)"
proof -
  let ?r = "chunkRow env0 (md5_hex env0 two_lines) ''a.txt'' [] 1 (''b'' @ [newline])"
  have 1: "?r \<in> set (rows_of (snd (IngestFile env0 ''docs'' ''a.txt'' two_lines [] store0)) ''docs'')"
    by (simp add: rows_two_lines)
  have 2: "?r \<notin> set (rows_of store0 ''docs'')"
    by (simp add: store0_fresh)
  have 3: "row_metadata ?r ''timestamp'' = Some (AInt 1700000001)"
    by (simp add: chunkRow_def stored_system_keys env0_simps)
  from IngestFile_chunks_share [OF surjective_pairing 1 2] 1 2 3 show ?thesis by blast
qed


section \<open>Propagation of store errors\<close>

lemma GetOrCreateCollection_creates:
  "faults st = None # fs \<Longrightarrow>
     \<exists>st1. GetOrCreateCollection c st = (Inr c, st1) \<and> faults st1 = fs
       \<and> collections st1 c = Some (rows_of st c)"
  by (simp add: GetOrCreateCollection_def next_fault_Cons rows_of_def split: option.split)

lemma collection_Get_hits:
  "faults st = None # fs \<Longrightarrow> collections st c = Some rows \<Longrightarrow>
     collection_Get c opt st
       = (Inr \<lparr>GetIDs = map row_id (filter (selects opt) rows),
               GetDocuments = map row_document (filter (selects opt) rows),
               GetMetadatas = map row_metadata (filter (selects opt) rows)\<rparr>,
          st\<lparr>faults := fs\<rparr>)"
  by (simp add: collection_Get_def next_fault_Cons Let_def)

lemma collection_Get_found:
  assumes "collection_Get c opt st = (Inr got, st')" and "GetDocuments got \<noteq> []"
  shows "\<exists>r \<in> set (rows_of st c). selects opt r"
proof (cases "collections st c")
  case None
  with assms(1) show ?thesis
    by (auto simp: collection_Get_def next_fault_def split: list.splits option.splits)
next
  case (Some rows)
  with assms(1) have "GetDocuments got = map row_document (filter (selects opt) rows)"
    by (auto simp: collection_Get_def next_fault_def Let_def split: list.splits option.splits)
  with assms(2) have "filter (selects opt) rows \<noteq> []" by auto
  then obtain r where "r \<in> set rows" "selects opt r"
    by (auto simp: filter_empty_conv)
  with Some show ?thesis by (auto simp: rows_of_def)
qed

lemma IngestFile_fail1:
  "faults st = Some err # fs \<Longrightarrow>
     fst (IngestFile e c f content um st) = Inl (Wrapped ''failed to get/create collection'' err)"
  by (simp add: IngestFile_def GetOrCreateCollection_fail)

lemma IngestFile_fail2:
  assumes "faults st = None # Some err # fs"
  shows "fst (IngestFile e c f content um st) = Inl (StoreErr err)"
proof -
  obtain st1 where 1: "GetOrCreateCollection c st = (Inr c, st1)" "faults st1 = Some err # fs"
    using GetOrCreateCollection_ok [OF assms] by blast
  show ?thesis
    by (simp add: IngestFile_def 1 collection_Get_fail [OF 1(2)])
qed

lemma IngestFile_insert_fails:
  assumes "faults st = None # None # Some err # fs"
    and "\<forall>r \<in> set (rows_of st c). row_metadata r ''file_md5'' \<noteq> Some (AString (md5_hex e content))"
  shows "fst (IngestFile e c f content um st) = Inl (StoreErr err)"
proof -
  obtain st1 where 1: "GetOrCreateCollection c st = (Inr c, st1)" "faults st1 = None # Some err # fs"
      "collections st1 c = Some (rows_of st c)"
    using GetOrCreateCollection_creates [OF assms(1)] by blast
  have nohit: "filter (selects (WithWhereGet (EqString ''file_md5'' (md5_hex e content))))
                 (rows_of st c) = []"
    using assms(2) by (auto simp: filter_empty_conv)
  have 2: "collection_Get c (WithWhereGet (EqString ''file_md5'' (md5_hex e content))) st1
             = (Inr \<lparr>GetIDs = [], GetDocuments = [], GetMetadatas = []\<rparr>,
                st1\<lparr>faults := Some err # fs\<rparr>)"
    using collection_Get_hits [OF 1(2,3)] nohit by simp
  have 3: "faults (st1\<lparr>faults := Some err # fs\<rparr>) = Some err # fs" by simp
  show ?thesis
    by (simp add: IngestFile_def 1 2 Let_def collection_Add_fail [OF 3])
qed

lemma IngestFile_skipped_only_on_hit:
  assumes "fst (IngestFile e c f content um st) = Inr res" and "Status res = ''skipped''"
  shows "\<exists>r \<in> set (rows_of st c).
           row_metadata r ''file_md5'' = Some (AString (md5_hex e content))"
proof -
  obtain r1 st1 where 1: "GetOrCreateCollection c st = (r1, st1)"
    by (cases "GetOrCreateCollection c st")
  note g1 = GetOrCreateCollection_rows [OF 1]
  obtain r2 st2 where 2:
    "collection_Get c (WithWhereGet (EqString ''file_md5'' (md5_hex e content))) st1 = (r2, st2)"
    by (cases "collection_Get c (WithWhereGet (EqString ''file_md5'' (md5_hex e content))) st1")
  have cc: "r1 = Inr c \<or> (\<exists>err. r1 = Inl err)"
    using 1 by (auto simp: GetOrCreateCollection_def split: prod.splits option.splits)
  then show ?thesis
  proof
    assume "\<exists>err. r1 = Inl err"
    with assms(1) 1 show ?thesis by (auto simp: IngestFile_def)
  next
    assume r1: "r1 = Inr c"
    show ?thesis
    proof (cases r2)
      case (Inl err)
      with assms(1) 1 2 r1 show ?thesis by (auto simp: IngestFile_def)
    next
      case (Inr got)
      have "GetDocuments got \<noteq> []"
      proof
        assume "GetDocuments got = []"
        with assms 1 2 r1 Inr show False
          by (auto simp: IngestFile_def Let_def split: prod.splits sum.splits)
      qed
      from collection_Get_found [OF 2 [unfolded Inr] this] g1 show ?thesis
        by simp
    qed
  qed
qed

lemma Search_fail1:
  "faults st = Some err # fs \<Longrightarrow>
     fst (Search c q k fm st)
       = Inl (Wrapped (''failed to get collection '' @ [CHR 0x27] @ c @ [CHR 0x27]) err)"
  by (simp add: Search_def GetCollection_fail)

lemma Search_query_fails:
  assumes "faults st = None # Some err # fs" and "collections st c = Some rows"
  shows "fst (Search c q k fm st) = Inl (StoreErr err)"
proof -
  have "GetCollection c st = (Inr c, st\<lparr>faults := Some err # fs\<rparr>)"
    using assms by (simp add: GetCollection_def next_fault_Cons)
  then show ?thesis
    by (simp add: Search_def collection_Query_fail)
qed

lemma Search_missing_collection:
  assumes "faults st = None # fs" and "collections st c = None"
  shows "fst (Search c q k fm st)
           = Inl (Wrapped (''failed to get collection '' @ [CHR 0x27] @ c @ [CHR 0x27]) not_found)"
  using assms by (simp add: Search_def GetCollection_def next_fault_Cons)

lemma CreateDocDirect_fail1:
  "text \<noteq> [] \<Longrightarrow> faults st = Some err # fs \<Longrightarrow>
     fst (CreateDocDirect e c id0 text md st) = Inl (Wrapped ''get/create collection'' err)"
  by (simp add: CreateDocDirect_def GetOrCreateCollection_fail)

lemma CreateDocDirect_fail2:
  assumes "text \<noteq> []" "id0 = []" "faults st = None # Some err # fs"
  shows "fst (CreateDocDirect e c id0 text md st) = Inl (Wrapped ''add document'' err)"
proof -
  obtain st1 where 1: "GetOrCreateCollection c st = (Inr c, st1)" "faults st1 = Some err # fs"
    using GetOrCreateCollection_ok [OF assms(3)] by blast
  show ?thesis
    using assms(1,2) by (simp add: CreateDocDirect_def 1 collection_Add_fail [OF 1(2)])
qed

lemma CreateDocDirect_insert_fails:
  assumes "t \<noteq> []" "id0 \<noteq> []" "faults st = None # g # Some err # fs"
    and "g \<noteq> None \<or> id0 \<notin> row_id ` set (rows_of st c)"
  shows "fst (CreateDocDirect e c id0 t md st) = Inl (Wrapped ''add document'' err)"
proof -
  obtain st1 where 1: "GetOrCreateCollection c st = (Inr c, st1)" "faults st1 = g # Some err # fs"
      "collections st1 c = Some (rows_of st c)"
    using GetOrCreateCollection_creates [OF assms(3)] by blast
  have 3: "faults (st1\<lparr>faults := Some err # fs\<rparr>) = Some err # fs" by simp
  show ?thesis
  proof (cases g)
    case None
    with assms(4) have "filter (selects (WithIDsGet [id0])) (rows_of st c) = []"
      by (auto simp: filter_empty_conv)
    then have 2: "collection_Get c (WithIDsGet [id0]) st1
                    = (Inr \<lparr>GetIDs = [], GetDocuments = [], GetMetadatas = []\<rparr>,
                       st1\<lparr>faults := Some err # fs\<rparr>)"
      using collection_Get_hits [of st1 "Some err # fs" c "rows_of st c"] 1 None by simp
    show ?thesis
      using assms(1,2) by (simp add: CreateDocDirect_def 1 2 collection_Add_fail [OF 3])
  next
    case (Some e')
    then have 2: "collection_Get c (WithIDsGet [id0]) st1 = (Inl e', st1\<lparr>faults := Some err # fs\<rparr>)"
      using collection_Get_fail 1 by simp
    show ?thesis
      using assms(1,2) by (simp add: CreateDocDirect_def 1 2 collection_Add_fail [OF 3])
  qed
qed

lemma CreateDocDirect_lookup_error_ignored:
  assumes "text \<noteq> []" "id0 \<noteq> []" "faults st = None # Some err # None # fs"
  shows "fst (CreateDocDirect e c id0 text md st) = Inr id0"
proof -
  obtain st1 where 1: "GetOrCreateCollection c st = (Inr c, st1)" "faults st1 = Some err # None # fs"
      "collections st1 c \<noteq> None"
    using GetOrCreateCollection_ok [OF assms(3)] by blast
  have 2: "collection_Get c (WithIDsGet [id0]) st1 = (Inl err, st1\<lparr>faults := None # fs\<rparr>)"
    using collection_Get_fail 1 by simp
  have 3: "faults (st1\<lparr>faults := None # fs\<rparr>) = None # fs"
     "collections (st1\<lparr>faults := None # fs\<rparr>) c \<noteq> None" using 1 by simp_all
  obtain st3 where 4: "collection_Add c [id0] [text]
      [NewDocumentMetadata (List.map_filter (\<lambda>(k, v). directAttribute k v) md)]
      (st1\<lparr>faults := None # fs\<rparr>) = (Inr (), st3)"
    using collection_Add_ok [OF 3] by blast
  show ?thesis
    using assms(1,2) by (simp add: CreateDocDirect_def 1 2 4)
qed


text \<open>
  C10. The claim is that every error of a store call is propagated. In \<open>CreateDocDirect\<close>
  the lookup of the id is tested with \<open>err == nil && len(got.GetIDs()) > 0\<close>: when the
  lookup fails, its error is dropped and the insert goes on. Here the second store call, the
  lookup, fails, the collection holds the id, and the call returns the id as a success.
\<close>

theorem CreateDocDirect_swallows_counterexample:
  "fst (collection_Get ''docs'' (WithIDsGet [''doc-1''])
          (store1\<lparr>faults := [Some (StoreError ''unavailable'')]\<rparr>))
     = Inl (StoreError ''unavailable'')
   \<and> fst (CreateDocDirect env0 ''docs'' ''doc-1'' ''hello'' []
            (store1\<lparr>faults := [None, Some (StoreError ''unavailable'')]\<rparr>))
       = Inr ''doc-1''"
  by (simp add: CreateDocDirect_def GetOrCreateCollection_def collection_Get_def
        collection_Add_def next_fault_def store1_def Let_def)

text \<open>
  C10, amended. The script gives the outcomes of the store calls in order. In \<open>IngestFile\<close>
  the error of the collection call and of the dedupe lookup is returned, and so is the error
  of the insert whenever the insert is made, that is when no stored row has the
  \<open>file_md5\<close> of the content; \<open>skipped\<close> is returned only on a dedupe hit, when a
  stored row has it. In \<open>Search\<close> the error of the collection call and of the query is
  returned (a missing collection is an error of the collection call). In \<open>CreateDocDirect\<close>
  the error of the collection call is returned, and so is the error of the insert whenever the
  insert is made, that is without an id, or when the lookup of the id fails or does not find
  it; the error of the lookup is not returned: the call goes on to the insert, and succeeds
  when the insert does.
\<close>

theorem store_errors_propagated:
  "(faults st = Some err # fs \<longrightarrow>
      fst (IngestFile e c f content um st)
        = Inl (Wrapped ''failed to get/create collection'' err))
   \<and> (faults st = None # Some err # fs \<longrightarrow>
        fst (IngestFile e c f content um st) = Inl (StoreErr err))
   \<and> (faults st = None # None # Some err # fs
        \<and> (\<forall>r \<in> set (rows_of st c).
              row_metadata r ''file_md5'' \<noteq> Some (AString (md5_hex e content))) \<longrightarrow>
        fst (IngestFile e c f content um st) = Inl (StoreErr err))
   \<and> ((\<exists>res. fst (IngestFile e c f content um st) = Inr res \<and> Status res = ''skipped'') \<longrightarrow>
        (\<exists>r \<in> set (rows_of st c).
            row_metadata r ''file_md5'' = Some (AString (md5_hex e content))))
   \<and> (faults st = Some err # fs \<longrightarrow>
        fst (Search c q k fm st)
          = Inl (Wrapped (''failed to get collection '' @ [CHR 0x27] @ c @ [CHR 0x27]) err))
   \<and> (faults st = None # Some err # fs \<and> collections st c = Some rows \<longrightarrow>
        fst (Search c q k fm st) = Inl (StoreErr err))
   \<and> (faults st = None # fs \<and> collections st c = None \<longrightarrow>
        fst (Search c q k fm st)
          = Inl (Wrapped (''failed to get collection '' @ [CHR 0x27] @ c @ [CHR 0x27])
                   not_found))
   \<and> (t \<noteq> [] \<and> faults st = Some err # fs \<longrightarrow>
        fst (CreateDocDirect e c id0 t md st) = Inl (Wrapped ''get/create collection'' err))
   \<and> (t \<noteq> [] \<and> id0 = [] \<and> faults st = None # Some err # fs \<longrightarrow>
        fst (CreateDocDirect e c id0 t md st) = Inl (Wrapped ''add document'' err))
   \<and> (t \<noteq> [] \<and> id0 \<noteq> [] \<and> faults st = None # g # Some err # fs
        \<and> (g \<noteq> None \<or> id0 \<notin> row_id ` set (rows_of st c)) \<longrightarrow>
        fst (CreateDocDirect e c id0 t md st) = Inl (Wrapped ''add document'' err))
   \<and> (t \<noteq> [] \<and> id0 \<noteq> [] \<and> faults st = None # Some err # None # fs \<longrightarrow>
        fst (CreateDocDirect e c id0 t md st) = Inr id0)"
proof (intro conjI impI)
  assume "faults st = Some err # fs"
  then show "fst (IngestFile e c f content um st)
        = Inl (Wrapped ''failed to get/create collection'' err)"
    by (rule IngestFile_fail1)
next
  assume "faults st = None # Some err # fs"
  then show "fst (IngestFile e c f content um st) = Inl (StoreErr err)"
    by (rule IngestFile_fail2)
next
  assume "faults st = None # None # Some err # fs
        \<and> (\<forall>r \<in> set (rows_of st c).
              row_metadata r ''file_md5'' \<noteq> Some (AString (md5_hex e content)))"
  then show "fst (IngestFile e c f content um st) = Inl (StoreErr err)"
    using IngestFile_insert_fails by blast
next
  assume "\<exists>res. fst (IngestFile e c f content um st) = Inr res \<and> Status res = ''skipped''"
  then show "\<exists>r \<in> set (rows_of st c).
            row_metadata r ''file_md5'' = Some (AString (md5_hex e content))"
    using IngestFile_skipped_only_on_hit by blast
next
  assume "faults st = Some err # fs"
  then show "fst (Search c q k fm st)
          = Inl (Wrapped (''failed to get collection '' @ [CHR 0x27] @ c @ [CHR 0x27]) err)"
    by (rule Search_fail1)
next
  assume "faults st = None # Some err # fs \<and> collections st c = Some rows"
  then show "fst (Search c q k fm st) = Inl (StoreErr err)"
    using Search_query_fails by blast
next
  assume "faults st = None # fs \<and> collections st c = None"
  then show "fst (Search c q k fm st)
          = Inl (Wrapped (''failed to get collection '' @ [CHR 0x27] @ c @ [CHR 0x27])
                   not_found)"
    using Search_missing_collection by blast
next
  assume "t \<noteq> [] \<and> faults st = Some err # fs"
  then show "fst (CreateDocDirect e c id0 t md st) = Inl (Wrapped ''get/create collection'' err)"
    using CreateDocDirect_fail1 by blast
next
  assume "t \<noteq> [] \<and> id0 = [] \<and> faults st = None # Some err # fs"
  then show "fst (CreateDocDirect e c id0 t md st) = Inl (Wrapped ''add document'' err)"
    using CreateDocDirect_fail2 by blast
next
  assume "t \<noteq> [] \<and> id0 \<noteq> [] \<and> faults st = None # g # Some err # fs
        \<and> (g \<noteq> None \<or> id0 \<notin> row_id ` set (rows_of st c))"
  then show "fst (CreateDocDirect e c id0 t md st) = Inl (Wrapped ''add document'' err)"
    using CreateDocDirect_insert_fails [of t id0 st g err fs c e md] by blast
next
  assume "t \<noteq> [] \<and> id0 \<noteq> [] \<and> faults st = None # Some err # None # fs"
  then show "fst (CreateDocDirect e c id0 t md st) = Inr id0"
    using CreateDocDirect_lookup_error_ignored by blast
qed

theorem store_errors_propagated_witness:
  "fst (IngestFile env0 ''docs'' ''a.txt'' ''hello'' []
          (store0\<lparr>faults := [Some (StoreError ''unavailable'')]\<rparr>))
     = Inl (Wrapped ''failed to get/create collection'' (StoreError ''unavailable''))
   \<and> fst (Search ''docs'' ''q'' 5 [] (store0\<lparr>faults := [Some (StoreError ''unavailable'')]\<rparr>))
       = Inl (Wrapped (''failed to get collection '' @ [CHR 0x27] @ ''docs'' @ [CHR 0x27])
                (StoreError ''unavailable''))
   \<and> fst (CreateDocDirect env0 ''docs'' ''doc-2'' ''hello'' []
            (store0\<lparr>faults := [Some (StoreError ''unavailable'')]\<rparr>))
       = Inl (Wrapped ''get/create collection'' (StoreError ''unavailable''))
   \<and> fst (IngestFile env0 ''docs'' ''a.txt'' ''hello'' []
            (store0\<lparr>faults := [None, Some (StoreError ''unavailable'')]\<rparr>))
       = Inl (StoreErr (StoreError ''unavailable''))
   \<and> fst (CreateDocDirect env0 ''docs'' [] ''hello'' []
            (store0\<lparr>faults := [None, Some (StoreError ''unavailable'')]\<rparr>))
       = Inl (Wrapped ''add document'' (StoreError ''unavailable''))
   \<and> fst (Search ''docs'' ''q'' 5 []
            (store1\<lparr>faults := [None, Some (StoreError ''unavailable'')]\<rparr>))
       = Inl (StoreErr (StoreError ''unavailable''))
   \<and> fst (Search ''docs'' ''q'' 5 [] (store0\<lparr>faults := [None]\<rparr>))
       = Inl (Wrapped (''failed to get collection '' @ [CHR 0x27] @ ''docs'' @ [CHR 0x27])
                not_found)
   \<and> rows_of (store0\<lparr>faults := [None, None, Some (StoreError ''unavailable'')]\<rparr>) ''docs'' = []
   \<and> fst (IngestFile env0 ''docs'' ''a.txt'' ''hello'' []
            (store0\<lparr>faults := [None, None, Some (StoreError ''unavailable'')]\<rparr>))
       = Inl (StoreErr (StoreError ''unavailable''))
   \<and> fst (CreateDocDirect env0 ''docs'' ''doc-2'' ''hello'' []
            (store0\<lparr>faults := [None, None, Some (StoreError ''unavailable'')]\<rparr>))
       = Inl (Wrapped ''add document'' (StoreError ''unavailable''))
   \<and> fst (CreateDocDirect env0 ''docs'' ''doc-2'' ''hello'' []
            (store0\<lparr>faults := [None, Some (StoreError ''unavailable''), None]\<rparr>))
       = Inr ''doc-2''
   \<and> fst (IngestFile env0 ''docs'' ''b.txt'' two_lines [] store2)
       = Inr \<lparr>Status = ''skipped'', File = ''b.txt'', Chunks = 0\<rparr>
   \<and> (\<exists>r \<in> set (rows_of store2 ''docs'').
         row_metadata r ''file_md5'' = Some (AString (md5_hex env0 two_lines)))"
proof -
  note T = store_errors_propagated
    [where e = env0 and c = "''docs''" and f = "''a.txt''" and content = "''hello''"
       and um = "[]" and q = "''q''" and k = 5 and fm = "[]" and t = "''hello''" and md = "[]"
       and err = "StoreError ''unavailable''"]
  have a: "fst (IngestFile env0 ''docs'' ''a.txt'' ''hello'' []
          (store0\<lparr>faults := [Some (StoreError ''unavailable'')]\<rparr>))
     = Inl (Wrapped ''failed to get/create collection'' (StoreError ''unavailable''))
   \<and> fst (Search ''docs'' ''q'' 5 [] (store0\<lparr>faults := [Some (StoreError ''unavailable'')]\<rparr>))
       = Inl (Wrapped (''failed to get collection '' @ [CHR 0x27] @ ''docs'' @ [CHR 0x27])
                (StoreError ''unavailable''))
   \<and> fst (CreateDocDirect env0 ''docs'' ''doc-2'' ''hello'' []
            (store0\<lparr>faults := [Some (StoreError ''unavailable'')]\<rparr>))
       = Inl (Wrapped ''get/create collection'' (StoreError ''unavailable''))"
    using T [where st = "store0\<lparr>faults := [Some (StoreError ''unavailable'')]\<rparr>"
               and fs = "[]" and ?id0.0 = "''doc-2''"]
    by (simp add: store0_def)
  have b: "fst (IngestFile env0 ''docs'' ''a.txt'' ''hello'' []
            (store0\<lparr>faults := [None, Some (StoreError ''unavailable'')]\<rparr>))
       = Inl (StoreErr (StoreError ''unavailable''))
   \<and> fst (CreateDocDirect env0 ''docs'' [] ''hello'' []
            (store0\<lparr>faults := [None, Some (StoreError ''unavailable'')]\<rparr>))
       = Inl (Wrapped ''add document'' (StoreError ''unavailable''))"
    using T [where st = "store0\<lparr>faults := [None, Some (StoreError ''unavailable'')]\<rparr>"
               and fs = "[]" and ?id0.0 = "[]"]
    by (simp add: store0_def)
  have d: "fst (Search ''docs'' ''q'' 5 []
            (store1\<lparr>faults := [None, Some (StoreError ''unavailable'')]\<rparr>))
       = Inl (StoreErr (StoreError ''unavailable''))"
    using T [where st = "store1\<lparr>faults := [None, Some (StoreError ''unavailable'')]\<rparr>"
               and fs = "[]" and rows = "[row1]"]
    by (simp add: store1_def)
  have e: "fst (Search ''docs'' ''q'' 5 [] (store0\<lparr>faults := [None]\<rparr>))
       = Inl (Wrapped (''failed to get collection '' @ [CHR 0x27] @ ''docs'' @ [CHR 0x27])
                not_found)"
    using T [where st = "store0\<lparr>faults := [None]\<rparr>" and fs = "[]"]
    by (simp add: store0_def)
  have r: "rows_of (store0\<lparr>faults := [None, None, Some (StoreError ''unavailable'')]\<rparr>) ''docs'' = []"
    by (simp add: rows_of_def store0_def)
  have c: "fst (IngestFile env0 ''docs'' ''a.txt'' ''hello'' []
            (store0\<lparr>faults := [None, None, Some (StoreError ''unavailable'')]\<rparr>))
       = Inl (StoreErr (StoreError ''unavailable''))
   \<and> fst (CreateDocDirect env0 ''docs'' ''doc-2'' ''hello'' []
            (store0\<lparr>faults := [None, None, Some (StoreError ''unavailable'')]\<rparr>))
       = Inl (Wrapped ''add document'' (StoreError ''unavailable''))"
    using T [where st = "store0\<lparr>faults := [None, None, Some (StoreError ''unavailable'')]\<rparr>"
               and fs = "[]" and ?id0.0 = "''doc-2''" and g = None] r
    by simp
  have f: "fst (CreateDocDirect env0 ''docs'' ''doc-2'' ''hello'' []
            (store0\<lparr>faults := [None, Some (StoreError ''unavailable''), None]\<rparr>))
       = Inr ''doc-2''"
    using T [where st = "store0\<lparr>faults := [None, Some (StoreError ''unavailable''), None]\<rparr>"
               and fs = "[]" and ?id0.0 = "''doc-2''"]
    by (simp add: store0_def)
  have s: "fst (IngestFile env0 ''docs'' ''b.txt'' two_lines [] store2)
       = Inr \<lparr>Status = ''skipped'', File = ''b.txt'', Chunks = 0\<rparr>"
    by (simp add: store2_skips)
  have h: "\<exists>r \<in> set (rows_of store2 ''docs'').
         row_metadata r ''file_md5'' = Some (AString (md5_hex env0 two_lines))"
    using store_errors_propagated
      [where e = env0 and c = "''docs''" and f = "''b.txt''" and content = two_lines
         and um = "[]" and st = store2] s
    by simp
  from a b d e r c f s h show ?thesis by blast
qed


end
